theory Spec2Isabelle
  imports Complex_Main
begin

section \<open>Prediction engine of Checkmk: resampling, partitioning, statistics, store\<close>

text \<open>
  A shallow embedding of \<^verbatim>\<open>cmk/utils/prediction/_prediction.py\<close>.
  Conventions of the model:
  \<^item> Python's \<^verbatim>\<open>int\<close> is \<^typ>\<open>int\<close>; a \<^verbatim>\<open>float\<close> is idealised as a
    \<^typ>\<open>real\<close> (no rounding, no NaN, no infinities); \<^verbatim>\<open>float | None\<close> is
    \<^typ>\<open>real option\<close>.
  \<^item> Every exception the code can raise is a value of the type \<open>error\<close>; a function
    that may raise returns \<open>error + 'a\<close>, with \<open>Inl\<close> for the exception.
  \<^item> The names of the source are kept; a leading underscore is dropped where Isabelle's
    lexical rules need it (\<open>time_slices\<close> for \<^verbatim>\<open>_time_slices\<close>).
\<close>

subsection \<open>Exceptions\<close>

text \<open>
  \<open>ValueError\<close> carries the message of the \<^verbatim>\<open>raise\<close>. \<open>MKGeneralException\<close> is
  the exception of \<^verbatim>\<open>get_rrd_data_with_mk_general_exception\<close>,
  \<open>MKLivestatusNotFoundError\<close> the one it catches.
\<close>

datatype error =
    IndexError
  | ValueError string
  | MKGeneralException string
  | MKLivestatusNotFoundError string
  | ValidationError

subsection \<open>Basic types\<close>

type_synonym Seconds = int
type_synonym Timestamp = int
type_synonym TimeWindow = "Timestamp \<times> Timestamp \<times> Seconds"
type_synonym TimeSeriesValue = "real option"
type_synonym TimeSeriesValues = "TimeSeriesValue list"
type_synonym ConsolidationFunctionName = string
type_synonym Timegroup = string

subsection \<open>Strings: \<^verbatim>\<open>str.lower\<close>\<close>

text \<open>
  \<^verbatim>\<open>str.lower\<close> on the ASCII letters; every other character is left as it is. (No
  character outside ASCII is lowered by Python to a letter of \<^verbatim>\<open>average\<close>,
  \<^verbatim>\<open>max\<close> or \<^verbatim>\<open>min\<close>.)
\<close>

definition lower_char :: "char \<Rightarrow> char" where
  "lower_char c =
     (case map_of (zip ''ABCDEFGHIJKLMNOPQRSTUVWXYZ'' ''abcdefghijklmnopqrstuvwxyz'') c of
        Some d \<Rightarrow> d
      | None \<Rightarrow> c)"

definition lower :: "string \<Rightarrow> string" where
  "lower s = map lower_char s"

subsection \<open>\<^verbatim>\<open>range\<close> and \<^verbatim>\<open>rrd_timestamps\<close>\<close>

text \<open>
  \<^verbatim>\<open>range(start, stop, step)\<close> as the loop it runs: counting up while below
  \<open>stop\<close> for a positive step, counting down while above \<open>stop\<close> for a negative
  one, and a \<open>ValueError\<close> for step zero.
\<close>

function range_up :: "int \<Rightarrow> int \<Rightarrow> int \<Rightarrow> int list" where
  "range_up cur stop step =
     (if 0 < step \<and> cur < stop then cur # range_up (cur + step) stop step else [])"
  by pat_completeness auto
termination
  by (relation "measure (\<lambda>(cur, stop, step). nat (stop - cur))") auto

function range_down :: "int \<Rightarrow> int \<Rightarrow> int \<Rightarrow> int list" where
  "range_down cur stop step =
     (if step < 0 \<and> stop < cur then cur # range_down (cur + step) stop step else [])"
  by pat_completeness auto
termination
  by (relation "measure (\<lambda>(cur, stop, step). nat (cur - stop))") auto

declare range_up.simps [simp del] range_down.simps [simp del]

definition py_range :: "int \<Rightarrow> int \<Rightarrow> int \<Rightarrow> error + int list" where
  "py_range start stop step =
     (if step = 0 then Inl (ValueError ''range() arg 3 must not be zero'')
      else if 0 < step then Inr (range_up start stop step)
      else Inr (range_down start stop step))"

text \<open>
  \<^verbatim>\<open>rrd_timestamps\<close>: \<^verbatim>\<open>[] if step == 0 else [t + step for t in range(start, end, step)]\<close>.
  The step is tested before \<^verbatim>\<open>range\<close> is called, so the function never raises.
\<close>

definition rrd_timestamps :: "TimeWindow \<Rightarrow> Timestamp list" where
  "rrd_timestamps time_window =
     (case time_window of (start, end, step) \<Rightarrow>
        if step = 0 then []
        else map (\<lambda>t. t + step)
               (if 0 < step then range_up start end step else range_down start end step))"

subsection \<open>Consolidation functions\<close>

text \<open>
  \<^verbatim>\<open>max(xs)\<close> and \<^verbatim>\<open>min(xs)\<close> of a non-empty list, as the left-to-right scan
  Python runs; \<^verbatim>\<open>fmean\<close> as sum over length.
\<close>

definition py_max :: "real list \<Rightarrow> real" where
  "py_max xs = fold max (tl xs) (hd xs)"

definition py_min :: "real list \<Rightarrow> real" where
  "py_min xs = fold min (tl xs) (hd xs)"

definition fmean :: "real list \<Rightarrow> real" where
  "fmean xs = sum_list xs / real (length xs)"

text \<open>\<^verbatim>\<open>[x for x in series if x is not None]\<close>\<close>

definition drop_none :: "TimeSeriesValues \<Rightarrow> real list" where
  "drop_none series = List.map_filter (\<lambda>x. x) series"

definition aggregation_functions ::
    "TimeSeriesValues \<Rightarrow> ConsolidationFunctionName option \<Rightarrow> error + TimeSeriesValue" where
  "aggregation_functions series aggr =
     (let cleaned_series = drop_none series in
      if cleaned_series = [] then Inr None
      else
        let aggr' = (case aggr of None \<Rightarrow> ''max'' | Some a \<Rightarrow> lower a) in
        if aggr' = ''average'' then Inr (Some (fmean cleaned_series))
        else if aggr' = ''max'' then Inr (Some (py_max cleaned_series))
        else if aggr' = ''min'' then Inr (Some (py_min cleaned_series))
        else Inl (ValueError
               (''Invalid Aggregation function '' @ aggr' @ '', only max, min, average allowed'')))"

subsection \<open>TimeSeries\<close>

text \<open>
  The object's attributes \<^verbatim>\<open>start\<close>, \<^verbatim>\<open>end\<close>, \<^verbatim>\<open>step\<close> and
  \<^verbatim>\<open>values\<close>. The constructor checks nothing about the length of
  \<^verbatim>\<open>values\<close>, so neither does the record.
\<close>

record TimeSeries =
  ts_start :: Timestamp
  ts_end :: Timestamp
  ts_step :: Seconds
  ts_values :: TimeSeriesValues

text \<open>
  \<^verbatim>\<open>TimeSeries(data, time_window)\<close> with a time window given and the default
  conversion (the identity), the way \<^verbatim>\<open>compute_prediction\<close> builds every series.
\<close>

definition TimeSeries_init :: "TimeSeriesValues \<Rightarrow> TimeWindow \<Rightarrow> TimeSeries" where
  "TimeSeries_init data time_window =
     (case time_window of (s, e, st) \<Rightarrow>
        \<lparr>ts_start = s, ts_end = e, ts_step = st, ts_values = data\<rparr>)"

definition twindow :: "TimeSeries \<Rightarrow> TimeWindow" where
  "twindow self = (ts_start self, ts_end self, ts_step self)"

text \<open>
  The loop of \<^verbatim>\<open>bfill_upsample\<close>, one target time \<open>t\<close> after the other, with the
  index \<open>i\<close> and the list \<open>upsa\<close> built so far. Both subscripts can raise:
  \<^verbatim>\<open>current_times[i]\<close> and \<^verbatim>\<open>self.values[i]\<close>.
\<close>

fun bfill_loop ::
    "Timestamp list \<Rightarrow> TimeSeriesValues \<Rightarrow> Timestamp list \<Rightarrow> nat \<Rightarrow> TimeSeriesValues
     \<Rightarrow> error + TimeSeriesValues" where
  "bfill_loop current_times vals [] i upsa = Inr upsa"
| "bfill_loop current_times vals (t # ts) i upsa =
     (if length current_times \<le> i then Inl IndexError
      else
        let i' = (if current_times ! i \<le> t then i + 1 else i) in
        if length vals \<le> i' then Inl IndexError
        else bfill_loop current_times vals ts i' (upsa @ [vals ! i']))"

definition bfill_upsample :: "TimeSeries \<Rightarrow> TimeWindow \<Rightarrow> error + TimeSeriesValues" where
  "bfill_upsample self tw =
     (if tw = twindow self then Inr (ts_values self)
      else
        let current_times = rrd_timestamps (twindow self) in
        case tw of (s, e, st) \<Rightarrow>
          (case py_range s e st of
             Inl err \<Rightarrow> Inl err
           | Inr ts \<Rightarrow> bfill_loop current_times (ts_values self) ts 0 []))"

definition time_data_pairs :: "TimeSeries \<Rightarrow> (Timestamp \<times> TimeSeriesValue) list" where
  "time_data_pairs self = zip (rrd_timestamps (twindow self)) (ts_values self)"

text \<open>
  The loop of \<^verbatim>\<open>downsample\<close> over the pairs \<open>(t, val)\<close>, with the index \<open>i\<close>,
  the group \<open>co\<close> collected so far and the result \<open>dwsa\<close>. It returns \<open>co\<close>
  and \<open>dwsa\<close> as they are after the last pair.
\<close>

fun downsample_loop ::
    "Timestamp list \<Rightarrow> ConsolidationFunctionName option
     \<Rightarrow> (Timestamp \<times> TimeSeriesValue) list \<Rightarrow> nat \<Rightarrow> TimeSeriesValues \<Rightarrow> TimeSeriesValues
     \<Rightarrow> error + (TimeSeriesValues \<times> TimeSeriesValues)" where
  "downsample_loop desired_times cf [] i co dwsa = Inr (co, dwsa)"
| "downsample_loop desired_times cf ((t, val) # ps) i co dwsa =
     (if length desired_times \<le> i then Inl IndexError
      else if desired_times ! i < t then
        (case aggregation_functions co cf of
           Inl err \<Rightarrow> Inl err
         | Inr a \<Rightarrow> downsample_loop desired_times cf ps (i + 1) [val] (dwsa @ [a]))
      else downsample_loop desired_times cf ps i (co @ [val]) dwsa)"

definition downsample ::
    "TimeSeries \<Rightarrow> TimeWindow \<Rightarrow> ConsolidationFunctionName option \<Rightarrow> error + TimeSeriesValues" where
  "downsample self tw cf =
     (if tw = twindow self then Inr (ts_values self)
      else
        let desired_times = rrd_timestamps tw in
        case downsample_loop desired_times cf (time_data_pairs self) 0 [] [] of
          Inl err \<Rightarrow> Inl err
        | Inr (co, dwsa) \<Rightarrow>
            let diff_len = int (length desired_times) - int (length dwsa) in
            if 0 < diff_len then
              (case aggregation_functions co cf of
                 Inl err \<Rightarrow> Inl err
               | Inr a \<Rightarrow> Inr (dwsa @ [a] @ replicate (nat (diff_len - 1)) None))
            else Inr dwsa)"

text \<open>
  The signature is \<^verbatim>\<open>downsample(self, twindow, cf="max")\<close>: a call may leave
  \<^verbatim>\<open>cf\<close> out (\<open>None\<close> below) or pass it, and what it may pass is a name or
  Python's \<^verbatim>\<open>None\<close>.
\<close>

definition downsample_call ::
    "TimeSeries \<Rightarrow> TimeWindow \<Rightarrow> ConsolidationFunctionName option option
     \<Rightarrow> error + TimeSeriesValues" where
  "downsample_call self tw cf_arg =
     downsample self tw (case cf_arg of None \<Rightarrow> Some ''max'' | Some cf \<Rightarrow> cf)"

text \<open>
  What the specification asks of \<^verbatim>\<open>bfill_upsample\<close>, in its words: the first source
  value whose bucket-end timestamp is at or after a given target timestamp, among the
  pairs of \<^verbatim>\<open>time_data_pairs\<close>; \<open>None\<close> when there is no such source value.
\<close>

fun first_at_or_after :: "(Timestamp \<times> 'a) list \<Rightarrow> Timestamp \<Rightarrow> 'a option" where
  "first_at_or_after [] T = None"
| "first_at_or_after ((c, v) # ps) T = (if T \<le> c then Some v else first_at_or_after ps T)"

subsection \<open>Statistics\<close>

record DataStat =
  average :: real
  min_ :: real
  max_ :: real
  stdev :: "real option"

record PredictionData =
  points :: "DataStat option list"
  data_twindow :: "Timestamp list"
  step :: Seconds

definition num_points :: "PredictionData \<Rightarrow> nat" where
  "num_points self = length (points self)"

text \<open>
  \<^verbatim>\<open>_std_dev\<close>. \<^verbatim>\<open>samples - 1\<close> is an integer subtraction, then converted.
\<close>

definition std_dev :: "real list \<Rightarrow> real \<Rightarrow> real option" where
  "std_dev point_line avg =
     (let samples = int (length point_line) in
      if samples = 1 then None
      else Some (sqrt (\<bar>sum_list (map (\<lambda>p. p ^ 2) point_line) - avg ^ 2 * real_of_int samples\<bar>
                       / real_of_int (samples - 1))))"

text \<open>
  \<^verbatim>\<open>zip(*slices)\<close>: the columns of the slices, as many as the shortest slice has
  entries; no column at all for no slice.
\<close>

definition zip_star :: "'a list list \<Rightarrow> 'a list list" where
  "zip_star slices =
     (if slices = [] then []
      else map (\<lambda>i. map (\<lambda>sl. sl ! i) slices) [0..<min_list (map length slices)])"

definition data_stat_of_column :: "TimeSeriesValues \<Rightarrow> DataStat option" where
  "data_stat_of_column time_column =
     (let point_line = drop_none time_column in
      if point_line \<noteq> [] then
        let avg = sum_list point_line / real (length point_line) in
        Some \<lparr>average = avg, min_ = py_min point_line, max_ = py_max point_line,
              stdev = std_dev point_line avg\<rparr>
      else None)"

definition data_stats :: "TimeSeriesValues list \<Rightarrow> DataStat option list" where
  "data_stats slices = map data_stat_of_column (zip_star slices)"

text \<open>
  \<^verbatim>\<open>_upsample\<close>: \<^verbatim>\<open>slices[0]\<close> raises on an empty sequence; the list
  comprehension stops at the first slice whose \<^verbatim>\<open>bfill_upsample\<close> raises.
\<close>

fun upsample_all ::
    "TimeWindow \<Rightarrow> (TimeSeries \<times> int) list \<Rightarrow> error + TimeSeriesValues list" where
  "upsample_all tw [] = Inr []"
| "upsample_all tw ((ts, shift) # rest) =
     (case tw of (s, e, st) \<Rightarrow>
        (case bfill_upsample ts (s - shift, e - shift, st) of
           Inl err \<Rightarrow> Inl err
         | Inr v \<Rightarrow>
             (case upsample_all tw rest of
                Inl err \<Rightarrow> Inl err
              | Inr vs \<Rightarrow> Inr (v # vs))))"

definition upsample ::
    "(TimeSeries \<times> int) list \<Rightarrow> error + (TimeWindow \<times> TimeSeriesValues list)" where
  "upsample slices =
     (case slices of
        [] \<Rightarrow> Inl IndexError
      | (ts0, _) # _ \<Rightarrow>
          let tw = twindow ts0 in
          (case upsample_all tw slices of
             Inl err \<Rightarrow> Inl err
           | Inr vs \<Rightarrow> Inr (tw, vs)))"

definition calculate_data_for_prediction ::
    "(TimeSeries \<times> int) list \<Rightarrow> error + PredictionData" where
  "calculate_data_for_prediction raw_slices =
     (case upsample raw_slices of
        Inl err \<Rightarrow> Inl err
      | Inr ((s, e, st), slices) \<Rightarrow>
          Inr \<lparr>points = data_stats slices, data_twindow = [s, e], step = st\<rparr>)"

subsection \<open>Local time\<close>

text \<open>
  The process's time zone, as the module \<^verbatim>\<open>time\<close> shows it. There are two
  sources of information, and the program reads both:
  \<^item> the constants \<^verbatim>\<open>time.timezone\<close> and \<^verbatim>\<open>time.altzone\<close> (seconds west of
    UTC without and with daylight saving), fixed for the process, and the flag
    \<^verbatim>\<open>time.localtime(t).tm_isdst\<close>; from these \<^verbatim>\<open>timezone_at\<close> computes the
    offset the program works with;
  \<^item> the calendar fields of \<^verbatim>\<open>time.localtime(t)\<close>, which follow the offset the
    zone really had at \<open>t\<close>, \<^verbatim>\<open>tm_gmtoff\<close> (seconds east of UTC).
  Nothing ties the two together: a zone that changed its standard offset has one pair of
  constants and a \<^verbatim>\<open>tm_gmtoff\<close> that differs from them before the change. So
  \<open>tm_gmtoff\<close> is a field of its own. The local civil time at \<open>t\<close> is
  \<open>t + tm_gmtoff t\<close>; day 0 of the epoch was a Thursday and \<^verbatim>\<open>tm_wday\<close> counts
  Monday as 0; \<^verbatim>\<open>tm_mday\<close> is the day of the month in the Gregorian calendar.
\<close>

record tz_env =
  timezone :: int
  altzone :: int
  tm_isdst :: "Timestamp \<Rightarrow> int"
  tm_gmtoff :: "Timestamp \<Rightarrow> int"

definition is_dst :: "tz_env \<Rightarrow> Timestamp \<Rightarrow> bool" where
  "is_dst tz timestamp = (tm_isdst tz timestamp \<noteq> 0)"

definition timezone_at :: "tz_env \<Rightarrow> Timestamp \<Rightarrow> int" where
  "timezone_at tz timestamp = (if is_dst tz timestamp then altzone tz else timezone tz)"

definition tm_wday :: "tz_env \<Rightarrow> Timestamp \<Rightarrow> nat" where
  "tm_wday tz t = nat (((t + tm_gmtoff tz t) div 86400 + 3) mod 7)"

definition mday_of_days :: "int \<Rightarrow> int" where
  "mday_of_days days =
     (let z = days + 719468;
          era = z div 146097;
          doe = z - era * 146097;
          yoe = (doe - doe div 1460 + doe div 36524 - doe div 146096) div 365;
          doy = doe - (365 * yoe + yoe div 4 - yoe div 100);
          mp = (5 * doy + 2) div 153
      in doy - (153 * mp + 2) div 5 + 1)"

definition tm_mday :: "tz_env \<Rightarrow> Timestamp \<Rightarrow> int" where
  "tm_mday tz t = mday_of_days ((t + tm_gmtoff tz t) div 86400)"

text \<open>
  A concrete zone for the examples: Central European Time in 2026, one hour east of UTC,
  two hours with daylight saving, which began on 29 March 2026 at 01:00 UTC and ended on
  25 October 2026 at 01:00 UTC.
\<close>

definition europe_berlin_2026 :: tz_env where
  "europe_berlin_2026 =
     \<lparr>timezone = - 3600, altzone = - 7200,
      tm_isdst = (\<lambda>t. if 1774746000 \<le> t \<and> t < 1792890000 then 1 else 0),
      tm_gmtoff = (\<lambda>t. if 1774746000 \<le> t \<and> t < 1792890000 then 7200 else 3600)\<rparr>"

text \<open>
  A zone whose standard offset changed: Almaty went from six to five hours east of UTC
  on 29 February 2024 at 18:00 UTC. It has no daylight saving, and a process started
  after the change sees five hours in both constants.
\<close>

definition asia_almaty_2024 :: tz_env where
  "asia_almaty_2024 =
     \<lparr>timezone = - 18000, altzone = - 18000,
      tm_isdst = (\<lambda>t. 0),
      tm_gmtoff = (\<lambda>t. if t < 1709229600 then 21600 else 18000)\<rparr>"

text \<open>
  Modelled from the spec: \<^verbatim>\<open>cmk.utils.dateutils.weekday_ids()\<close>, the table of the
  day-of-week names that \<^verbatim>\<open>_group_by_wday\<close> subscripts with \<^verbatim>\<open>tm_wday\<close>,
  Monday first.
\<close>

definition weekday_ids :: "string list" where
  "weekday_ids =
     [''monday'', ''tuesday'', ''wednesday'', ''thursday'', ''friday'', ''saturday'', ''sunday'']"

text \<open>Python's \<^verbatim>\<open>str(mday)\<close> for the day of a month (1 to 31).\<close>

definition digit_char :: "nat \<Rightarrow> char" where
  "digit_char d = ''0123456789'' ! (d mod 10)"

definition str_mday :: "int \<Rightarrow> string" where
  "str_mday mday =
     (let n = nat mday in if n < 10 then [digit_char n] else [digit_char (n div 10), digit_char n])"

subsection \<open>Period catalog\<close>

datatype PeriodName = wday | day | hour | minute

record PeriodInfo =
  slice :: int
  groupby :: "Timestamp \<Rightarrow> Timegroup \<times> Timestamp"
  valid :: int

text \<open>\<^verbatim>\<open>_window_start\<close>; Python's \<^verbatim>\<open>%\<close> and HOL's \<open>mod\<close> agree on integers.\<close>

definition window_start :: "tz_env \<Rightarrow> Timestamp \<Rightarrow> int \<Rightarrow> int" where
  "window_start tz timestamp width = (timestamp - timezone_at tz timestamp) mod width"

definition group_by_wday :: "tz_env \<Rightarrow> Timestamp \<Rightarrow> Timegroup \<times> Timestamp" where
  "group_by_wday tz t = (weekday_ids ! tm_wday tz t, window_start tz t 86400)"

definition group_by_day :: "tz_env \<Rightarrow> Timestamp \<Rightarrow> Timegroup \<times> Timestamp" where
  "group_by_day tz t = (''everyday'', window_start tz t 86400)"

definition group_by_day_of_month :: "tz_env \<Rightarrow> Timestamp \<Rightarrow> Timegroup \<times> Timestamp" where
  "group_by_day_of_month tz t = (str_mday (tm_mday tz t), window_start tz t 86400)"

definition group_by_everyhour :: "tz_env \<Rightarrow> Timestamp \<Rightarrow> Timegroup \<times> Timestamp" where
  "group_by_everyhour tz t = (''everyhour'', window_start tz t 3600)"

definition PREDICTION_PERIODS :: "tz_env \<Rightarrow> PeriodName \<Rightarrow> PeriodInfo" where
  "PREDICTION_PERIODS tz p =
     (case p of
        wday \<Rightarrow> \<lparr>slice = 86400, groupby = group_by_wday tz, valid = 7\<rparr>
      | day \<Rightarrow> \<lparr>slice = 86400, groupby = group_by_day_of_month tz, valid = 28\<rparr>
      | hour \<Rightarrow> \<lparr>slice = 86400, groupby = group_by_day tz, valid = 1\<rparr>
      | minute \<Rightarrow> \<lparr>slice = 3600, groupby = group_by_everyhour tz, valid = 24\<rparr>)"

subsection \<open>Time-window partitioner\<close>

definition get_timegroup_relative_time ::
    "Timestamp \<Rightarrow> PeriodInfo \<Rightarrow> Timegroup \<times> Timestamp \<times> Timestamp \<times> Seconds" where
  "get_timegroup_relative_time t period_info =
     (case groupby period_info t of (timegroup, rel_time) \<Rightarrow>
        let from_time = t - rel_time;
            until_time = from_time + slice period_info
        in (timegroup, from_time, until_time, rel_time))"

text \<open>
  The loop of \<^verbatim>\<open>_time_slices\<close> over the values of \<^verbatim>\<open>begin\<close>, appending to
  \<open>slices\<close>.
\<close>

fun time_slices_loop ::
    "PeriodInfo \<Rightarrow> Timegroup \<Rightarrow> Timestamp list \<Rightarrow> (Timestamp \<times> Timestamp) list
     \<Rightarrow> (Timestamp \<times> Timestamp) list" where
  "time_slices_loop period_info timegroup [] slices = slices"
| "time_slices_loop period_info timegroup (begin # rest) slices =
     (case get_timegroup_relative_time begin period_info of (tg, start, end, _) \<Rightarrow>
        time_slices_loop period_info timegroup rest
          (if tg = timegroup then slices @ [(start, end)] else slices))"

definition time_slices ::
    "Timestamp \<Rightarrow> Seconds \<Rightarrow> PeriodInfo \<Rightarrow> Timegroup
     \<Rightarrow> error + (Timestamp \<times> Timestamp) list" where
  "time_slices timestamp horizon period_info timegroup =
     (let abs_begin = timestamp - horizon in
      case py_range timestamp abs_begin (- slice period_info) of
        Inl err \<Rightarrow> Inl err
      | Inr begins \<Rightarrow> Inr (time_slices_loop period_info timegroup begins []))"

subsection \<open>Prediction metadata\<close>

datatype LevelsKind = absolute | relative | stdev_levels

type_synonym LevelsSpec = "LevelsKind \<times> (real \<times> real)"

record PredictionParameters =
  period :: PeriodName
  horizon :: int
  levels_upper :: "LevelsSpec option"
  levels_upper_min :: "(real \<times> real) option"
  levels_lower :: "LevelsSpec option"

text \<open>
  The fields \<^verbatim>\<open>range\<close> and \<^verbatim>\<open>slice\<close> of \<^verbatim>\<open>PredictionInfo\<close> are
  \<open>info_range\<close> and \<open>info_slice\<close> here.
\<close>

record PredictionInfo =
  name :: Timegroup
  time :: int
  info_range :: "Timestamp \<times> Timestamp"
  cf :: ConsolidationFunctionName
  dsname :: string
  info_slice :: int
  params :: PredictionParameters

subsection \<open>Prediction store\<close>

text \<open>
  The store writes two files per time group. Their paths are
  \<^verbatim>\<open>self._dir / Path(timegroup).with_suffix(SUFFIX)\<close>, where the directory comes from
  \<^verbatim>\<open>pnp_cleanup\<close> and the two suffixes from \<^verbatim>\<open>._paths\<close>, none of which is
  part of the sources at hand; the store therefore carries the two path functions
  \<^verbatim>\<open>_data_file\<close> and \<^verbatim>\<open>_info_file\<close> as they are.

  The file system is a map from paths to file contents. A file holds the text that
  \<^verbatim>\<open>info.json()\<close> or \<^verbatim>\<open>data.json()\<close> wrote; the model keeps the object the
  text encodes and which of the two it is, so \<^verbatim>\<open>parse_raw\<close> gives the object back
  when the kind is the one it expects and raises a validation error otherwise.
  Directories, permissions and other failures of the operating system are not part of
  the model.
\<close>

type_synonym path = string

datatype file_content = InfoJson PredictionInfo | DataJson PredictionData

type_synonym filesystem = "path \<rightharpoonup> file_content"

record PredictionStore =
  data_file :: "Timegroup \<Rightarrow> path"
  info_file :: "Timegroup \<Rightarrow> path"

definition save_prediction ::
    "PredictionStore \<Rightarrow> PredictionInfo \<Rightarrow> PredictionData \<Rightarrow> filesystem \<Rightarrow> filesystem" where
  "save_prediction self info data fs =
     (let fs1 = fs(info_file self (name info) \<mapsto> InfoJson info) in
      fs1(data_file self (name info) \<mapsto> DataJson data))"

text \<open>\<^verbatim>\<open>unlink(missing_ok=True)\<close> on the data file, then on the info file.\<close>

definition remove_prediction :: "PredictionStore \<Rightarrow> Timegroup \<Rightarrow> filesystem \<Rightarrow> filesystem" where
  "remove_prediction self timegroup fs =
     (let fs1 = fs(data_file self timegroup := None) in
      fs1(info_file self timegroup := None))"

text \<open>
  \<^verbatim>\<open>get_info\<close> and \<^verbatim>\<open>get_data\<close>: \<open>Inr None\<close> is the \<^verbatim>\<open>None\<close> returned
  after the \<^verbatim>\<open>FileNotFoundError\<close> was caught and logged.
\<close>

definition get_info ::
    "PredictionStore \<Rightarrow> Timegroup \<Rightarrow> filesystem \<Rightarrow> error + PredictionInfo option" where
  "get_info self timegroup fs =
     (case fs (info_file self timegroup) of
        None \<Rightarrow> Inr None
      | Some (InfoJson info) \<Rightarrow> Inr (Some info)
      | Some (DataJson _) \<Rightarrow> Inl ValidationError)"

definition get_data ::
    "PredictionStore \<Rightarrow> Timegroup \<Rightarrow> filesystem \<Rightarrow> error + PredictionData option" where
  "get_data self timegroup fs =
     (case fs (data_file self timegroup) of
        None \<Rightarrow> Inr None
      | Some (DataJson data) \<Rightarrow> Inr (Some data)
      | Some (InfoJson _) \<Rightarrow> Inl ValidationError)"

subsection \<open>The external data source\<close>

text \<open>
  \<^verbatim>\<open>livestatus.get_rrd_data\<close> is called with host, service, variable name and the two
  times. It returns a response or \<^verbatim>\<open>None\<close>, or raises
  \<^verbatim>\<open>MKLivestatusNotFoundError\<close>. The environment also holds the switch
  \<^verbatim>\<open>cmk.utils.debug.enabled()\<close>.
\<close>

record RRDResponse =
  rrd_window :: TimeWindow
  rrd_values :: TimeSeriesValues

type_synonym rrd_request = "string \<times> string \<times> string \<times> Timestamp \<times> Timestamp"

datatype rrd_outcome =
    Returned RRDResponse
  | ReturnedNone
  | RaisedNotFound string

record environment =
  debug_enabled :: bool
  get_rrd_data :: "rrd_request \<Rightarrow> rrd_outcome"

definition rrd_request_of ::
    "string \<Rightarrow> string \<Rightarrow> string \<Rightarrow> ConsolidationFunctionName \<Rightarrow> Timestamp \<Rightarrow> Timestamp
     \<Rightarrow> rrd_request" where
  "rrd_request_of host_name service_description metric_name cfn fromtime untiltime =
     (host_name, service_description, metric_name @ ''.'' @ lower cfn, fromtime, untiltime)"

definition get_rrd_data_with_mk_general_exception ::
    "environment \<Rightarrow> string \<Rightarrow> string \<Rightarrow> string \<Rightarrow> ConsolidationFunctionName
     \<Rightarrow> Timestamp \<Rightarrow> Timestamp \<Rightarrow> error + RRDResponse" where
  "get_rrd_data_with_mk_general_exception env host_name service_description metric_name cfn
       fromtime untiltime =
     (case get_rrd_data env
             (rrd_request_of host_name service_description metric_name cfn fromtime untiltime) of
        RaisedNotFound e \<Rightarrow>
          if debug_enabled env then Inl (MKLivestatusNotFoundError e)
          else Inl (MKGeneralException (''Cannot get historic metrics via Livestatus: '' @ e))
      | ReturnedNone \<Rightarrow>
          Inl (MKGeneralException ''Cannot retrieve historic data with Nagios Core'')
      | Returned response \<Rightarrow> Inr response)"

subsection \<open>Orchestrator\<close>

text \<open>
  The list comprehension that fetches one response per time window, in order. It stops
  at the first fetch that raises. Next to its result it returns the requests it sent to
  the data source, in the order sent.
\<close>

fun rrd_responses_loop ::
    "environment \<Rightarrow> string \<Rightarrow> string \<Rightarrow> PredictionInfo \<Rightarrow> Timestamp
     \<Rightarrow> (Timestamp \<times> Timestamp) list
     \<Rightarrow> (error + (RRDResponse \<times> int) list) \<times> rrd_request list" where
  "rrd_responses_loop env host_name service_description info from_time [] = (Inr [], [])"
| "rrd_responses_loop env host_name service_description info from_time ((start, end) # rest) =
     (let request = rrd_request_of host_name service_description (dsname info) (cf info) start end
      in case get_rrd_data_with_mk_general_exception env host_name service_description
                (dsname info) (cf info) start end of
           Inl err \<Rightarrow> (Inl err, [request])
         | Inr response \<Rightarrow>
             (case rrd_responses_loop env host_name service_description info from_time rest of
                (Inl err, sent) \<Rightarrow> (Inl err, request # sent)
              | (Inr responses, sent) \<Rightarrow>
                  (Inr ((response, from_time - start) # responses), request # sent)))"

text \<open>
  \<^verbatim>\<open>compute_prediction\<close>. The outcome is what the call returns or raises, the file
  system as the call leaves it, and the requests sent to the data source.
\<close>

record outcome =
  result :: "error + PredictionData"
  files :: filesystem
  requests :: "rrd_request list"

definition compute_prediction ::
    "environment \<Rightarrow> PredictionInfo \<Rightarrow> PredictionStore \<Rightarrow> int \<Rightarrow> PeriodInfo \<Rightarrow> string \<Rightarrow> string
     \<Rightarrow> filesystem \<Rightarrow> outcome" where
  "compute_prediction env info prediction_store now period_info host_name service_description fs =
     (let fs1 = remove_prediction prediction_store (name info) fs in
      case time_slices now (horizon (params info) * 86400) period_info (name info) of
        Inl err \<Rightarrow> \<lparr>result = Inl err, files = fs1, requests = []\<rparr>
      | Inr time_windows \<Rightarrow>
          (case time_windows of
             [] \<Rightarrow> \<lparr>result = Inl IndexError, files = fs1, requests = []\<rparr>
           | (from_time, _) # _ \<Rightarrow>
               (case rrd_responses_loop env host_name service_description info from_time
                       time_windows of
                  (Inl err, sent) \<Rightarrow> \<lparr>result = Inl err, files = fs1, requests = sent\<rparr>
                | (Inr rrd_responses, sent) \<Rightarrow>
                    let raw_slices =
                          map (\<lambda>(rrd_response, offset).
                                 (TimeSeries_init (rrd_values rrd_response)
                                    (rrd_window rrd_response), offset))
                            rrd_responses
                    in (case calculate_data_for_prediction raw_slices of
                          Inl err \<Rightarrow> \<lparr>result = Inl err, files = fs1, requests = sent\<rparr>
                        | Inr data_for_pred \<Rightarrow>
                            \<lparr>result = Inr data_for_pred,
                             files = save_prediction prediction_store info data_for_pred fs1,
                             requests = sent\<rparr>))))"

subsection \<open>A concrete setting for the examples\<close>

text \<open>
  A store, the metadata of a weekday prediction for Tuesdays over a horizon of 14 days,
  and an artifact left by an earlier computation. The examples run at
  \<open>1781604000\<close>, which is Tuesday 16 June 2026, 12:00 in Central European Summer Time.
\<close>

definition example_store :: PredictionStore where
  "example_store =
     \<lparr>data_file = (\<lambda>timegroup. ''prediction/host1/CPU_load/load1/'' @ timegroup),
      info_file = (\<lambda>timegroup. ''prediction/host1/CPU_load/load1/'' @ timegroup @ ''.info'')\<rparr>"

definition example_info :: PredictionInfo where
  "example_info =
     \<lparr>name = ''tuesday'', time = 1781604000, info_range = (1781560800, 1781647200),
      cf = ''MAX'', dsname = ''load1'', info_slice = 86400,
      params = \<lparr>period = wday, horizon = 14, levels_upper = None,
                 levels_upper_min = None, levels_lower = None\<rparr>\<rparr>"

definition old_data :: PredictionData where
  "old_data = \<lparr>points = [None, None], data_twindow = [1780956000, 1781042400], step = 43200\<rparr>"

definition old_files :: filesystem where
  "old_files = save_prediction example_store example_info old_data Map.empty"

text \<open>
  Two data sources. The first answers every request with two values at a step of twelve
  hours. The second answers only requests for the most recent Tuesday and reports every
  older window as not found.
\<close>

definition healthy_source :: "rrd_request \<Rightarrow> rrd_outcome" where
  "healthy_source request =
     (case request of (host_name, service_description, varname, fromtime, untiltime) \<Rightarrow>
        Returned \<lparr>rrd_window = (fromtime, untiltime, 43200), rrd_values = [Some 1, Some 3]\<rparr>)"

definition broken_source :: "rrd_request \<Rightarrow> rrd_outcome" where
  "broken_source request =
     (case request of (host_name, service_description, varname, fromtime, untiltime) \<Rightarrow>
        if 1781560800 \<le> fromtime
        then Returned \<lparr>rrd_window = (fromtime, untiltime, 43200), rrd_values = [Some 1, Some 3]\<rparr>
        else RaisedNotFound ''no such metric'')"

section \<open>Properties\<close>

subsection \<open>Consolidation functions\<close>

lemma drop_none_empty_iff: "drop_none series = [] \<longleftrightarrow> (\<forall>x\<in>set series. x = None)"
  by (induction series) (auto simp: drop_none_def split: option.splits)

lemma lower_char_idem: "lower_char (lower_char c) = lower_char c"
  by (simp add: lower_char_def)

lemma lower_idem: "lower (lower s) = lower s"
  by (simp add: lower_def lower_char_idem)

text \<open>
  C3, as the code has it. The test for an empty cleaned series comes before the name is
  looked at, so an unknown name raises only when the series holds at least one value
  that is not \<open>None\<close>. Then the call raises Python's \<^verbatim>\<open>ValueError\<close> (the
  \<^verbatim>\<open>InvalidAggregationError\<close> of the specification) with the lowered name in its
  message, whatever the series holds otherwise.
\<close>

theorem aggregation_functions_unknown_name:
  assumes "Some x \<in> set series"
    and "lower a \<noteq> ''average''" and "lower a \<noteq> ''max''" and "lower a \<noteq> ''min''"
  shows "aggregation_functions series (Some a) =
           Inl (ValueError (''Invalid Aggregation function '' @ lower a
                              @ '', only max, min, average allowed''))"
proof -
  from assms(1) have "drop_none series \<noteq> []"
    by (auto simp: drop_none_empty_iff)
  with assms(2-4) show ?thesis
    by (simp add: aggregation_functions_def Let_def)
qed

theorem aggregation_functions_unknown_name_witness:
  "Some 1 \<in> set [None, Some (1::real)] \<and> lower ''Median'' \<noteq> ''average''
   \<and> lower ''Median'' \<noteq> ''max'' \<and> lower ''Median'' \<noteq> ''min''
   \<and> aggregation_functions [None, Some 1] (Some ''Median'') =
       Inl (ValueError ''Invalid Aggregation function median, only max, min, average allowed'')"
  using aggregation_functions_unknown_name [of 1 "[None, Some 1]" "''Median''"]
  by (simp add: lower_def lower_char_def)

text \<open>
  C3 as stated fails: with the unknown name \<^verbatim>\<open>median\<close>, a series of \<open>None\<close>s and
  the empty series both give \<open>None\<close> and raise nothing.
\<close>

theorem aggregation_functions_unknown_name_counterexample:
  "lower ''median'' \<noteq> ''average'' \<and> lower ''median'' \<noteq> ''max'' \<and> lower ''median'' \<noteq> ''min''
   \<and> aggregation_functions [None] (Some ''median'') = Inr None
   \<and> aggregation_functions [] (Some ''median'') = Inr None"
  by (simp add: aggregation_functions_def drop_none_def lower_def lower_char_def)

text \<open>
  C4: a series whose values are all \<open>None\<close>, the empty series included, aggregates to
  \<open>None\<close> for every function name (\<^verbatim>\<open>average\<close>, \<^verbatim>\<open>max\<close>, \<^verbatim>\<open>min\<close> and any
  other); the result is neither a number nor an exception.
\<close>

theorem aggregation_functions_all_None:
  assumes "\<forall>x\<in>set series. x = None"
  shows "aggregation_functions series aggr = Inr None"
  using assms by (simp add: aggregation_functions_def drop_none_empty_iff [symmetric])

theorem aggregation_functions_all_None_witness:
  "aggregation_functions [None, None] (Some ''average'') = Inr None
   \<and> aggregation_functions [None, None] (Some ''max'') = Inr None
   \<and> aggregation_functions [None, None] (Some ''min'') = Inr None
   \<and> aggregation_functions [] (Some ''average'') = Inr None"
  using aggregation_functions_all_None [of "[None, None]" "Some ''average''"]
        aggregation_functions_all_None [of "[None, None]" "Some ''max''"]
        aggregation_functions_all_None [of "[None, None]" "Some ''min''"]
        aggregation_functions_all_None [of "[]" "Some ''average''"]
  by simp

text \<open>
  C9: the name is lowered before it is matched, so a name and its lower-case form
  aggregate alike; no name (\<open>None\<close>) aggregates as \<^verbatim>\<open>max\<close>; and a call of
  \<^verbatim>\<open>downsample\<close> that leaves the consolidation function out runs with \<^verbatim>\<open>max\<close>.
\<close>

theorem aggregation_case_insensitive_default_max:
  "aggregation_functions series (Some a) = aggregation_functions series (Some (lower a))
   \<and> aggregation_functions series None = aggregation_functions series (Some ''max'')
   \<and> downsample_call self tw None = downsample self tw (Some ''max'')"
  by (simp add: aggregation_functions_def lower_idem downsample_call_def Let_def)
    (simp add: lower_def lower_char_def)

theorem aggregation_case_insensitive_default_max_witness:
  "aggregation_functions [Some 1, None, Some 3] (Some ''MaX'') = Inr (Some 3)
   \<and> aggregation_functions [Some 1, None, Some 3] None = Inr (Some 3)
   \<and> aggregation_functions [Some 1, None, Some 3] (Some ''AVERAGE'') = Inr (Some 2)
   \<and> aggregation_functions [Some 1, None, Some 3] (Some ''Min'') = Inr (Some 1)"
  using aggregation_case_insensitive_default_max [of "[Some 1, None, Some 3]" "''MaX''"]
        aggregation_case_insensitive_default_max [of "[Some 1, None, Some 3]" "''AVERAGE''"]
        aggregation_case_insensitive_default_max [of "[Some 1, None, Some 3]" "''Min''"]
  by (simp add: aggregation_functions_def drop_none_def lower_def
        lower_char_def py_max_def py_min_def fmean_def)

subsection \<open>Downsampling to the series' own window\<close>

text \<open>
  C6: \<^verbatim>\<open>downsample\<close> with the series' own window as target returns the values of the
  series as they are, for every consolidation function name, known or not.
\<close>

theorem downsample_same_window:
  "downsample self (twindow self) cf_name = Inr (ts_values self)"
  by (simp add: downsample_def)

theorem downsample_same_window_witness:
  "downsample \<lparr>ts_start = 0, ts_end = 30, ts_step = 10, ts_values = [Some 1, None, Some 3]\<rparr>
     (0, 30, 10) (Some ''average'') = Inr [Some 1, None, Some 3]"
  using downsample_same_window
    [of "\<lparr>ts_start = 0, ts_end = 30, ts_step = 10, ts_values = [Some 1, None, Some 3]\<rparr>"
        "Some ''average''"]
  by (simp add: twindow_def)

subsection \<open>Standard deviation\<close>

text \<open>
  C5: for a non-empty list of samples and its arithmetic mean, \<^verbatim>\<open>_std_dev\<close> is
  \<open>None\<close> for exactly one sample, and otherwise the square root of
  \<open>|\<Sum>x\<^sup>2 - n \<sqdot> average\<^sup>2| / (n - 1)\<close>; for the samples 2 and 4 with average 3 it is
  the square root of 2. (Over the reals, which stand for Python's floats.)
\<close>

theorem std_dev_formula:
  assumes "point_line \<noteq> []"
    and "avg = sum_list point_line / real (length point_line)"
  shows "std_dev point_line avg =
           (if length point_line = 1 then None
            else Some (sqrt (\<bar>(\<Sum>p\<leftarrow>point_line. p\<^sup>2) - real (length point_line) * avg\<^sup>2\<bar>
                             / (real (length point_line) - 1))))
         \<and> std_dev [2, 4] 3 = Some (sqrt 2)"
proof -
  from assms(1) have "0 < length point_line" by simp
  then have "real_of_int (int (length point_line) - 1) = real (length point_line) - 1"
    by simp
  then show ?thesis
    by (simp add: std_dev_def Let_def mult.commute)
qed

theorem std_dev_formula_witness:
  "[2, 4, 9] \<noteq> ([] :: real list) \<and> (5::real) = sum_list [2, 4, 9] / real (length [2, 4, 9 :: real])
   \<and> std_dev [2, 4, 9] 5 = Some (sqrt 13)
   \<and> std_dev [7] 7 = None"
  using std_dev_formula [of "[2, 4, 9]" 5] std_dev_formula [of "[7]" 7]
  by simp

subsection \<open>Upsampling\<close>

lemma range_up_Nil [simp]: "\<not> (0 < p \<and> s < e) \<Longrightarrow> range_up s e p = []"
  by (subst range_up.simps) simp

lemma range_up_Cons: "0 < p \<Longrightarrow> s < e \<Longrightarrow> range_up s e p = s # range_up (s + p) e p"
  by (subst range_up.simps) simp

lemma range_up_bounds: "t \<in> set (range_up s e p) \<Longrightarrow> s \<le> t \<and> t < e"
proof (induction s e p rule: range_up.induct)
  case (1 cur stop step)
  show ?case
  proof (cases "0 < step \<and> cur < stop")
    case True
    with 1 show ?thesis by (auto simp: range_up_Cons)
  next
    case False
    with 1 show ?thesis by simp
  qed
qed

lemma range_up_nth:
  "j < length (range_up s e p) \<Longrightarrow> range_up s e p ! j = s + int j * p"
proof (induction s e p arbitrary: j rule: range_up.induct)
  case (1 cur stop step)
  show ?case
  proof (cases "0 < step \<and> cur < stop")
    case True
    with 1 show ?thesis
      by (cases j) (auto simp: range_up_Cons algebra_simps)
  next
    case False
    with 1 show ?thesis by simp
  qed
qed

lemma range_up_successively:
  "successively (\<lambda>a b. b = a + p) (range_up s e p)"
proof (induction s e p rule: range_up.induct)
  case (1 cur stop step)
  show ?case
  proof (cases "0 < step \<and> cur < stop")
    case True
    note T = this
    show ?thesis
    proof (cases "cur + step < stop")
      case True
      with T 1 show ?thesis
        by (simp add: range_up_Cons [of step cur stop] range_up_Cons [of step "cur + step" stop])
    next
      case False
      with T show ?thesis
        by (simp add: range_up_Cons [of step cur stop])
    qed
  next
    case False
    then show ?thesis by simp
  qed
qed

lemma range_up_last:
  "0 < p \<Longrightarrow> s < e \<Longrightarrow> e \<le> last (range_up s e p) + p"
proof (induction s e p rule: range_up.induct)
  case (1 cur stop step)
  show ?case
  proof (cases "cur + step < stop")
    case True
    with 1 show ?thesis
      by (simp add: range_up_Cons [of step cur stop] range_up_Cons [of step "cur + step" stop])
  next
    case False
    with 1 show ?thesis
      by (simp add: range_up_Cons [of step cur stop])
  qed
qed


lemma first_at_or_after_nth:
  "length vals = length ct \<Longrightarrow> i < length ct \<Longrightarrow> T \<le> ct ! i \<Longrightarrow> (\<forall>j<i. ct ! j < T)
   \<Longrightarrow> first_at_or_after (zip ct vals) T = Some (vals ! i)"
proof (induction ct arbitrary: vals i)
  case Nil
  then show ?case by simp
next
  case (Cons c ct)
  then obtain v vs where vals: "vals = v # vs" by (cases vals) auto
  show ?case
  proof (cases i)
    case 0
    with Cons.prems vals show ?thesis by simp
  next
    case (Suc k)
    with Cons.prems have "c < T" by auto
    moreover have "first_at_or_after (zip ct vs) T = Some (vs ! k)"
    proof (rule Cons.IH)
      show "length vs = length ct" using Cons.prems vals by simp
      show "k < length ct" using Cons.prems Suc by simp
      show "T \<le> ct ! k" using Cons.prems Suc by simp
      show "\<forall>j<k. ct ! j < T" using Cons.prems(4) Suc by auto
    qed
    ultimately show ?thesis using vals Suc by simp
  qed
qed

lemma index_below_last:
  fixes ct :: "int list"
  assumes "i < length ct" and "ct ! i \<le> t" and "t < last ct"
  shows "i + 1 < length ct"
proof (rule ccontr)
  assume "\<not> i + 1 < length ct"
  with assms(1) have "i = length ct - 1" by simp
  moreover from assms(1) have "ct \<noteq> []" by auto
  ultimately have "ct ! i = last ct" by (simp add: last_conv_nth)
  with assms(2,3) show False by simp
qed

text \<open>
  No subscript of the loop is out of range when every target time is below the last
  source time.
\<close>

lemma bfill_loop_no_overrun:
  assumes "length ct \<le> length vals"
    and "\<forall>t\<in>set ts. t < last ct"
    and "ts = [] \<or> i < length ct"
  shows "\<exists>out. bfill_loop ct vals ts i upsa = Inr (upsa @ out) \<and> length out = length ts"
  using assms(2,3)
proof (induction ts arbitrary: i upsa)
  case Nil
  then show ?case by simp
next
  case (Cons t ts)
  then have i: "i < length ct" and t: "t < last ct" by auto
  define i' where "i' = (if ct ! i \<le> t then i + 1 else i)"
  have i': "i' < length ct"
  proof (cases "ct ! i \<le> t")
    case True
    with index_below_last [OF i True t] show ?thesis by (simp add: i'_def)
  next
    case False
    with i show ?thesis by (simp add: i'_def)
  qed
  from Cons.prems have "\<forall>t\<in>set ts. t < last ct" by simp
  from Cons.IH [OF this, of i' "upsa @ [vals ! i']"] i'
  obtain out where "bfill_loop ct vals ts i' (upsa @ [vals ! i']) = Inr ((upsa @ [vals ! i']) @ out)"
    and "length out = length ts" by auto
  with i i' assms(1) show ?case
    by (auto simp: i'_def Let_def)
qed

lemma bfill_loop_values:
  assumes len: "length vals = length ct"
    and sorted: "sorted_wrt (<) ct"
    and st: "0 < st"
    and chain: "successively (\<lambda>a b. b = a + st) ts"
    and below: "\<forall>t\<in>set ts. t < last ct"
    and aligned: "\<forall>t\<in>set ts. \<forall>c\<in>set ct. \<not> (t < c \<and> c < t + st)"
    and pre: "ts = [] \<or> (i < length ct \<and> (i = 0 \<or> ct ! (i - 1) \<le> hd ts)
                \<and> (i + 1 < length ct \<longrightarrow> hd ts < ct ! (i + 1)))"
  shows "bfill_loop ct vals ts i upsa =
           Inr (upsa @ map (\<lambda>t. the (first_at_or_after (zip ct vals) (t + st))) ts)
         \<and> (\<forall>t\<in>set ts. first_at_or_after (zip ct vals) (t + st) \<noteq> None)"
  using chain below aligned pre
proof (induction ts arbitrary: i upsa)
  case Nil
  then show ?case by simp
next
  case (Cons t ts)
  from Cons.prems have i: "i < length ct" and t: "t < last ct"
    and lo: "i = 0 \<or> ct ! (i - 1) \<le> t"
    and hi: "i + 1 < length ct \<longrightarrow> t < ct ! (i + 1)"
    and al: "\<forall>c\<in>set ct. \<not> (t < c \<and> c < t + st)" by auto
  define i' where "i' = (if ct ! i \<le> t then i + 1 else i)"
  have i': "i' < length ct"
  proof (cases "ct ! i \<le> t")
    case True
    with index_below_last [OF i True t] show ?thesis by (simp add: i'_def)
  next
    case False
    with i show ?thesis by (simp add: i'_def)
  qed
  have inv_hi: "t < ct ! i'"
    using hi i' by (auto simp: i'_def split: if_splits)
  have inv_lo: "i' = 0 \<or> ct ! (i' - 1) \<le> t"
    using lo by (auto simp: i'_def)
  have ge: "t + st \<le> ct ! i'"
    using al inv_hi i' by (metis not_le nth_mem)
  have before: "\<forall>j<i'. ct ! j < t + st"
  proof (intro allI impI)
    fix j assume j: "j < i'"
    then have "i' \<noteq> 0" by simp
    with inv_lo have le: "ct ! (i' - 1) \<le> t" by simp
    have "ct ! j \<le> ct ! (i' - 1)"
    proof (cases "j = i' - 1")
      case True then show ?thesis by simp
    next
      case False
      with j have "j < i' - 1" by simp
      moreover have "i' - 1 < length ct" using i' by simp
      ultimately have "ct ! j < ct ! (i' - 1)"
        using sorted by (simp add: sorted_wrt_iff_nth_less)
      then show ?thesis by simp
    qed
    with le st show "ct ! j < t + st" by simp
  qed
  have val: "first_at_or_after (zip ct vals) (t + st) = Some (vals ! i')"
    using first_at_or_after_nth [OF len i' ge before] .
  have pre': "ts = [] \<or> (i' < length ct \<and> (i' = 0 \<or> ct ! (i' - 1) \<le> hd ts)
                \<and> (i' + 1 < length ct \<longrightarrow> hd ts < ct ! (i' + 1)))"
  proof (cases ts)
    case Nil
    then show ?thesis by simp
  next
    case (Cons t' ts')
    with Cons.prems(1) have t': "t' = t + st" by simp
    have "i' + 1 < length ct \<longrightarrow> t' < ct ! (i' + 1)"
    proof
      assume "i' + 1 < length ct"
      then have "ct ! i' < ct ! (i' + 1)"
        using sorted by (simp add: sorted_wrt_iff_nth_less)
      with ge t' show "t' < ct ! (i' + 1)" by simp
    qed
    moreover have "i' = 0 \<or> ct ! (i' - 1) \<le> t'"
      using inv_lo t' st by auto
    ultimately show ?thesis using Cons i' by simp
  qed
  have chain': "successively (\<lambda>a b. b = a + st) ts"
    using Cons.prems(1) by (cases ts) auto
  have below': "\<forall>t\<in>set ts. t < last ct" using Cons.prems(2) by simp
  have aligned': "\<forall>t\<in>set ts. \<forall>c\<in>set ct. \<not> (t < c \<and> c < t + st)"
    using Cons.prems(3) by simp
  from Cons.IH [OF chain' below' aligned' pre', of "upsa @ [vals ! i']"]
  have IH: "bfill_loop ct vals ts i' (upsa @ [vals ! i']) =
              Inr ((upsa @ [vals ! i']) @ map (\<lambda>t. the (first_at_or_after (zip ct vals) (t + st))) ts)"
    and IH2: "\<forall>t\<in>set ts. first_at_or_after (zip ct vals) (t + st) \<noteq> None" by auto
  have "bfill_loop ct vals (t # ts) i upsa = bfill_loop ct vals ts i' (upsa @ [vals ! i'])"
    using i i' len by (simp add: i'_def Let_def)
  with IH IH2 val show ?case by simp
qed


lemma rrd_timestamps_pos:
  "0 < p \<Longrightarrow> rrd_timestamps (s, e, p) = map (\<lambda>t. t + p) (range_up s e p)"
  by (simp add: rrd_timestamps_def)

lemma rrd_timestamps_nth:
  "0 < p \<Longrightarrow> j < length (rrd_timestamps (s, e, p))
   \<Longrightarrow> rrd_timestamps (s, e, p) ! j = s + (int j + 1) * p"
  by (simp add: rrd_timestamps_pos range_up_nth algebra_simps)

lemma rrd_timestamps_sorted:
  assumes "0 < p"
  shows "sorted_wrt (<) (rrd_timestamps (s, e, p))"
proof -
  have "rrd_timestamps (s, e, p) ! i < rrd_timestamps (s, e, p) ! j"
    if "i < j" "j < length (rrd_timestamps (s, e, p))" for i j
  proof -
    from that have "i < length (rrd_timestamps (s, e, p))" by simp
    moreover from that assms have "int i * p < int j * p" by simp
    ultimately show ?thesis
      using that assms by (simp add: rrd_timestamps_nth algebra_simps)
  qed
  then show ?thesis by (simp add: sorted_wrt_iff_nth_less)
qed

lemma rrd_timestamps_last:
  assumes "0 < p" and "s < e"
  shows "rrd_timestamps (s, e, p) \<noteq> [] \<and> e \<le> last (rrd_timestamps (s, e, p))"
proof -
  from assms have ne: "range_up s e p \<noteq> []" by (simp add: range_up_Cons)
  with range_up_last [OF assms] assms(1) show ?thesis
    by (simp add: rrd_timestamps_pos last_map)
qed

lemma first_at_or_after_own_times:
  assumes len: "length vals = length ct" and sorted: "sorted_wrt (<) ct"
  shows "map (first_at_or_after (zip ct vals)) ct = map Some vals"
proof (rule nth_equalityI)
  show "length (map (first_at_or_after (zip ct vals)) ct) = length (map Some vals)"
    using len by simp
next
  fix k assume "k < length (map (first_at_or_after (zip ct vals)) ct)"
  then have k: "k < length ct" by simp
  have "\<forall>j<k. ct ! j < ct ! k"
    using sorted k by (simp add: sorted_wrt_iff_nth_less)
  with first_at_or_after_nth [OF len k, of "ct ! k"]
  have "first_at_or_after (zip ct vals) (ct ! k) = Some (vals ! k)" by simp
  with k len show "map (first_at_or_after (zip ct vals)) ct ! k = map Some vals ! k"
    by simp
qed

lemma range_up_nonempty: "range_up s e p \<noteq> [] \<Longrightarrow> s < e"
  by (rule ccontr) simp

text \<open>
  C1, as the code has it. Take a series with a positive step that has one value per
  timestamp of its own window, and a target window with a positive step that lies inside
  the source's domain (\<open>start \<le> s\<close> and \<open>e \<le> end\<close>). Then \<^verbatim>\<open>bfill_upsample\<close>
  returns, without any subscript out of range, one value per target timestamp. If
  moreover the target starts before the second source timestamp and the grids are
  aligned (no source timestamp lies strictly inside a target bucket, as when the target
  step divides the source step and the starts differ by a multiple of it), each value is
  the first source value whose bucket-end timestamp is at or after the target's
  bucket-end timestamp. The timestamps of a window are those of \<^verbatim>\<open>rrd_timestamps\<close>:
  values belong to the end of their interval.
\<close>

theorem bfill_upsample_covered:
  assumes step: "0 < ts_step self"
    and len: "length (ts_values self) = length (rrd_timestamps (twindow self))"
    and st: "0 < st"
    and lo: "ts_start self \<le> s" and hi: "e \<le> ts_end self"
  shows "\<exists>upsa. bfill_upsample self (s, e, st) = Inr upsa
           \<and> length upsa = length (rrd_timestamps (s, e, st))
           \<and> (s < ts_start self + 2 * ts_step self
                \<and> (\<forall>T\<in>set (rrd_timestamps (s, e, st)).
                      \<forall>c\<in>set (rrd_timestamps (twindow self)). \<not> (T - st < c \<and> c < T))
              \<longrightarrow> map Some upsa
                    = map (first_at_or_after (time_data_pairs self)) (rrd_timestamps (s, e, st)))"
proof (cases "(s, e, st) = twindow self")
  case True
  have "bfill_upsample self (s, e, st) = Inr (ts_values self)"
    unfolding True by (simp add: bfill_upsample_def)
  moreover have "length (ts_values self) = length (rrd_timestamps (s, e, st))"
    using len True by simp
  moreover have "map Some (ts_values self)
      = map (first_at_or_after (time_data_pairs self)) (rrd_timestamps (s, e, st))"
  proof -
    have "sorted_wrt (<) (rrd_timestamps (twindow self))"
      using rrd_timestamps_sorted [OF step] by (simp add: twindow_def)
    from first_at_or_after_own_times [OF len this] show ?thesis
      unfolding True time_data_pairs_def by simp
  qed
  ultimately show ?thesis by blast
next
  case False
  define ct where "ct = rrd_timestamps (twindow self)"
  define vals where "vals = ts_values self"
  define ts where "ts = range_up s e st"
  have run: "bfill_upsample self (s, e, st) = bfill_loop ct vals ts 0 []"
    using False st by (simp add: bfill_upsample_def py_range_def ct_def vals_def ts_def)
  have tgt: "rrd_timestamps (s, e, st) = map (\<lambda>t. t + st) ts"
    using st by (simp add: rrd_timestamps_pos ts_def)
  have sorted: "sorted_wrt (<) ct"
    using rrd_timestamps_sorted [OF step] by (simp add: ct_def twindow_def)
  have len': "length vals = length ct" using len by (simp add: ct_def vals_def)
  have nonempty: "ct \<noteq> [] \<and> e \<le> last ct" if "ts \<noteq> []"
  proof -
    from that have "s < e" using range_up_nonempty [of s e st] by (simp add: ts_def)
    with lo hi have "ts_start self < ts_end self" and "e \<le> ts_end self" by simp_all
    with rrd_timestamps_last [OF step, of "ts_start self" "ts_end self"] show ?thesis
      by (auto simp: ct_def twindow_def)
  qed
  have below: "\<forall>t\<in>set ts. t < last ct"
  proof
    fix t assume t: "t \<in> set ts"
    then have "ts \<noteq> []" by auto
    with nonempty have "e \<le> last ct" by simp
    moreover from t have "t < e" using range_up_bounds [of t s e st] by (simp add: ts_def)
    ultimately show "t < last ct" by simp
  qed
  have start: "ts = [] \<or> 0 < length ct" using nonempty by auto
  from bfill_loop_no_overrun [of ct vals ts 0 "[]"] len' below start
  obtain out where out: "bfill_loop ct vals ts 0 [] = Inr out" "length out = length ts"
    by auto
  have vals_eq: "map Some out = map (first_at_or_after (time_data_pairs self)) (rrd_timestamps (s, e, st))"
    if near: "s < ts_start self + 2 * ts_step self"
      and al: "\<forall>T\<in>set (rrd_timestamps (s, e, st)). \<forall>c\<in>set ct. \<not> (T - st < c \<and> c < T)"
  proof -
    have aligned: "\<forall>t\<in>set ts. \<forall>c\<in>set ct. \<not> (t < c \<and> c < t + st)"
    proof (intro ballI)
      fix t c assume "t \<in> set ts" "c \<in> set ct"
      then have "t + st \<in> set (rrd_timestamps (s, e, st))" by (simp add: tgt)
      with al \<open>c \<in> set ct\<close> have "\<not> (t + st - st < c \<and> c < t + st)" by blast
      then show "\<not> (t < c \<and> c < t + st)" by simp
    qed
    have pre: "ts = [] \<or> (0 < length ct \<and> (0 = (0::nat) \<or> ct ! (0 - 1) \<le> hd ts)
                \<and> (0 + 1 < length ct \<longrightarrow> hd ts < ct ! (0 + 1)))"
    proof (cases "ts = []")
      case True
      then show ?thesis by simp
    next
      case False
      then have "s < e" using range_up_nonempty [of s e st] by (simp add: ts_def)
      then have hd: "hd ts = s" using st by (simp add: ts_def range_up_Cons)
      have "hd ts < ct ! 1" if "1 < length ct"
        using that near step hd rrd_timestamps_nth [of "ts_step self" 1 "ts_start self" "ts_end self"]
        by (simp add: ct_def twindow_def)
      with False start show ?thesis by simp
    qed
    from bfill_loop_values [OF len' sorted st _ below aligned pre, of "[]"]
      range_up_successively [of st s e]
    have "bfill_loop ct vals ts 0 [] =
            Inr (map (\<lambda>t. the (first_at_or_after (zip ct vals) (t + st))) ts)"
      and some: "\<forall>t\<in>set ts. first_at_or_after (zip ct vals) (t + st) \<noteq> None"
      by (simp_all add: ts_def)
    with out have "out = map (\<lambda>t. the (first_at_or_after (zip ct vals) (t + st))) ts" by simp
    then have "map Some out = map (\<lambda>t. first_at_or_after (zip ct vals) (t + st)) ts"
      using some by auto
    then show ?thesis
      by (simp add: tgt time_data_pairs_def ct_def vals_def comp_def)
  qed
  show ?thesis
  proof (intro exI conjI impI)
    show "bfill_upsample self (s, e, st) = Inr out" using run out by simp
    show "length out = length (rrd_timestamps (s, e, st))" using out tgt by simp
    assume "s < ts_start self + 2 * ts_step self
       \<and> (\<forall>T\<in>set (rrd_timestamps (s, e, st)).
             \<forall>c\<in>set (rrd_timestamps (twindow self)). \<not> (T - st < c \<and> c < T))"
    then show "map Some out
        = map (first_at_or_after (time_data_pairs self)) (rrd_timestamps (s, e, st))"
      using vals_eq unfolding ct_def by blast
  qed
qed


text \<open>
  An hourly-like series of three values upsampled to half its step: every value is
  repeated, the missing one too.
\<close>

theorem bfill_upsample_covered_witness:
  "bfill_upsample \<lparr>ts_start = 0, ts_end = 30, ts_step = 10, ts_values = [Some 1, None, Some 3]\<rparr>
     (0, 30, 5) = Inr [Some 1, Some 1, None, None, Some 3, Some 3]
   \<and> rrd_timestamps (0, 30, 5) = [5, 10, 15, 20, 25, 30]
   \<and> map (first_at_or_after (time_data_pairs
        \<lparr>ts_start = 0, ts_end = 30, ts_step = 10, ts_values = [Some 1, None, Some 3]\<rparr>))
        (rrd_timestamps (0, 30, 5))
      = [Some (Some 1), Some (Some 1), Some None, Some None, Some (Some 3), Some (Some 3)]"
  using bfill_upsample_covered
    [of "\<lparr>ts_start = 0, ts_end = 30, ts_step = 10, ts_values = [Some 1, None, Some 3]\<rparr>" 5 0 30]
  by (simp add: twindow_def rrd_timestamps_def range_up.simps time_data_pairs_def
        bfill_upsample_def py_range_def)

text \<open>
  C1 as stated fails. The index moves by at most one per target time, so a covered
  target window that starts late lags behind: for the window \<open>(25, 30, 1)\<close> the first
  value is the second source value, although the first source timestamp at or after 26
  (and at or after 25) is 30, the third. On a grid that is not aligned, \<open>(0, 28, 7)\<close>,
  the second and third values are one source value early.
\<close>

theorem bfill_upsample_counterexample:
  "bfill_upsample \<lparr>ts_start = 0, ts_end = 30, ts_step = 10, ts_values = [Some 1, Some 2, Some 3]\<rparr>
     (25, 30, 1) = Inr [Some 2, Some 3, Some 3, Some 3, Some 3]
   \<and> map (first_at_or_after (time_data_pairs
        \<lparr>ts_start = 0, ts_end = 30, ts_step = 10, ts_values = [Some 1, Some 2, Some 3]\<rparr>))
        (rrd_timestamps (25, 30, 1))
      = [Some (Some 3), Some (Some 3), Some (Some 3), Some (Some 3), Some (Some 3)]
   \<and> map (first_at_or_after (time_data_pairs
        \<lparr>ts_start = 0, ts_end = 30, ts_step = 10, ts_values = [Some 1, Some 2, Some 3]\<rparr>))
        [25, 26, 27, 28, 29]
      = [Some (Some 3), Some (Some 3), Some (Some 3), Some (Some 3), Some (Some 3)]
   \<and> bfill_upsample \<lparr>ts_start = 0, ts_end = 30, ts_step = 10, ts_values = [Some 1, Some 2, Some 3]\<rparr>
     (0, 28, 7) = Inr [Some 1, Some 1, Some 2, Some 3]
   \<and> map (first_at_or_after (time_data_pairs
        \<lparr>ts_start = 0, ts_end = 30, ts_step = 10, ts_values = [Some 1, Some 2, Some 3]\<rparr>))
        (rrd_timestamps (0, 28, 7))
      = [Some (Some 1), Some (Some 2), Some (Some 3), Some (Some 3)]"
  by (simp add: twindow_def rrd_timestamps_def range_up.simps time_data_pairs_def
        bfill_upsample_def py_range_def)

subsection \<open>Time-window partitioner\<close>

text \<open>
  The backward walk of \<^verbatim>\<open>range(timestamp, abs_begin, -slice)\<close> in closed form: the
  times \<open>cur - k \<sqdot> w\<close> for \<open>k\<close> below the number of steps of width \<open>w\<close> that fit
  before \<open>stop\<close>.
\<close>

lemma range_down_Nil: "\<not> (p < 0 \<and> e < s) \<Longrightarrow> range_down s e p = []"
  by (subst range_down.simps) simp

lemma range_down_Cons: "p < 0 \<Longrightarrow> e < s \<Longrightarrow> range_down s e p = s # range_down (s + p) e p"
  by (subst range_down.simps) simp

lemma walk_count_step:
  fixes w d :: int
  assumes "0 < w" and "0 < d"
  shows "nat ((d + w - 1) div w) = Suc (nat ((d - w + w - 1) div w))"
proof -
  have "(d + w - 1) div w = (d - 1) div w + 1"
    using assms(1) by (metis add.commute add_diff_eq div_add_self1 less_irrefl)
  moreover have "0 \<le> (d - 1) div w"
    using assms by (simp add: pos_imp_zdiv_nonneg_iff)
  ultimately show ?thesis by simp
qed

lemma range_down_closed:
  assumes "0 < w"
  shows "range_down cur stop (- w) =
           map (\<lambda>k. cur - int k * w) [0..<nat ((cur - stop + w - 1) div w)]"
  using assms
proof (induction cur stop "- w" rule: range_down.induct)
  case (1 cur stop)
  show ?case
  proof (cases "stop < cur")
    case True
    with 1 have IH: "range_down (cur + - w) stop (- w) =
        map (\<lambda>k. cur + - w - int k * w) [0..<nat ((cur + - w - stop + w - 1) div w)]"
      by simp
    have cnt: "nat ((cur - stop + w - 1) div w) = Suc (nat ((cur - stop - w + w - 1) div w))"
      using walk_count_step [of w "cur - stop"] 1(2) True by simp
    have "range_down cur stop (- w) = cur # range_down (cur + - w) stop (- w)"
      using True 1(2) by (simp add: range_down_Cons)
    also have "\<dots> = cur # map (\<lambda>k. cur - int (Suc k) * w) [0..<nat ((cur - stop - w + w - 1) div w)]"
      using IH by (simp add: algebra_simps)
    also have "\<dots> = map (\<lambda>k. cur - int k * w) [0..<Suc (nat ((cur - stop - w + w - 1) div w))]"
      by (simp add: map_upt_Suc del: upt_Suc)
    finally show ?thesis using cnt by simp
  next
    case False
    then have "cur - stop + w - 1 < w" by simp
    then have "(cur - stop + w - 1) div w \<le> 0"
      using 1(2) by (metis div_pos_neg_trivial div_pos_pos_trivial not_le order_refl zdiv_mono1 div_by_0 linorder_not_less zdiv_eq_0_iff less_le div_nonpos_pos_le0 zero_le_one)
    with False show ?thesis by (simp add: range_down_Nil)
  qed
qed


lemma time_slices_loop_filter:
  "time_slices_loop pinfo tg begins acc =
     acc @ map (\<lambda>b. (b - snd (groupby pinfo b), b - snd (groupby pinfo b) + slice pinfo))
             (filter (\<lambda>b. fst (groupby pinfo b) = tg) begins)"
  by (induction begins arbitrary: acc)
    (auto simp: get_timegroup_relative_time_def Let_def split: prod.splits)

lemma time_slices_closed:
  assumes "0 < slice pinfo"
  shows "time_slices now horizon_seconds pinfo tg =
     Inr (map (\<lambda>b. (b - snd (groupby pinfo b), b - snd (groupby pinfo b) + slice pinfo))
           (filter (\<lambda>b. fst (groupby pinfo b) = tg)
              (map (\<lambda>k. now - int k * slice pinfo)
                 [0..<nat ((horizon_seconds + slice pinfo - 1) div slice pinfo)])))"
  using assms range_down_closed [OF assms, of now "now - horizon_seconds"]
  by (simp add: time_slices_def py_range_def time_slices_loop_filter Let_def)

lemma catalog_slice_pos: "0 < slice (PREDICTION_PERIODS tz p)"
  by (cases p) (simp_all add: PREDICTION_PERIODS_def)

lemma catalog_offset_bounds:
  "0 \<le> snd (groupby (PREDICTION_PERIODS tz p) b)
   \<and> snd (groupby (PREDICTION_PERIODS tz p) b) < slice (PREDICTION_PERIODS tz p)"
  by (cases p)
    (simp_all add: PREDICTION_PERIODS_def group_by_wday_def group_by_day_def
       group_by_day_of_month_def group_by_everyhour_def window_start_def)

lemma walk_bounds:
  fixes w h :: int
  assumes "0 < w" and "k < nat ((h + w - 1) div w)"
  shows "int k * w < h"
proof -
  from assms have "int k < (h + w - 1) div w" by simp
  then have "int k + 1 \<le> (h + w - 1) div w" by simp
  then have "(int k + 1) * w \<le> (h + w - 1) div w * w"
    using assms(1) by (simp add: mult_right_mono)
  also have "\<dots> \<le> h + w - 1"
  proof -
    have "(h + w - 1) div w * w + (h + w - 1) mod w = h + w - 1" by simp
    moreover have "0 \<le> (h + w - 1) mod w" using assms(1) by simp
    ultimately show ?thesis by linarith
  qed
  finally show ?thesis by (simp add: algebra_simps)
qed

lemma walk_end:
  fixes w h :: int
  assumes "0 < w"
  shows "h \<le> int (nat ((h + w - 1) div w)) * w"
proof (cases "0 < h")
  case True
  then have nn: "0 \<le> (h + w - 1) div w"
    using assms by (simp add: pos_imp_zdiv_nonneg_iff)
  have "h + w - 1 = (h + w - 1) div w * w + (h + w - 1) mod w" by simp
  moreover have "(h + w - 1) mod w \<le> w - 1"
    using assms by (simp add: pos_mod_bound zle_diff1_eq)
  ultimately have "h \<le> (h + w - 1) div w * w" by linarith
  with nn show ?thesis by simp
next
  case False
  then have "h \<le> 0" by simp
  moreover have "0 \<le> int (nat ((h + w - 1) div w)) * w" using assms by simp
  ultimately show ?thesis by linarith
qed


lemma buckets_most_recent_first:
  assumes w: "0 < slice pinfo"
    and off: "\<forall>b. 0 \<le> snd (groupby pinfo b) \<and> snd (groupby pinfo b) < slice pinfo"
  shows "sorted_wrt (\<lambda>a b. fst b < fst a)
           (map (\<lambda>b. (b - snd (groupby pinfo b), b - snd (groupby pinfo b) + slice pinfo))
              (filter P (map (\<lambda>k. now - int k * slice pinfo) [0..<n])))"
proof -
  let ?from = "\<lambda>b. b - snd (groupby pinfo b)"
  have step: "?from (now - int k' * slice pinfo) < ?from (now - int k * slice pinfo)"
    if "k < k'" for k k'
  proof -
    from that have "int k + 1 \<le> int k'" by simp
    then have "(int k + 1) * slice pinfo \<le> int k' * slice pinfo"
      using w by (simp add: mult_right_mono)
    then have "now - int k' * slice pinfo \<le> now - int k * slice pinfo - slice pinfo"
      by (simp add: algebra_simps)
    moreover have "0 \<le> snd (groupby pinfo (now - int k' * slice pinfo))"
      and "snd (groupby pinfo (now - int k * slice pinfo)) < slice pinfo"
      using off by simp_all
    ultimately show ?thesis by linarith
  qed
  have "sorted_wrt (<) [0..<n]" by simp
  then have "sorted_wrt (\<lambda>k k'. ?from (now - int k' * slice pinfo) < ?from (now - int k * slice pinfo))
               [0..<n]"
    by (rule sorted_wrt_mono_rel [rotated]) (use step in blast)
  then have "sorted_wrt (\<lambda>b b'. ?from b' < ?from b) (map (\<lambda>k. now - int k * slice pinfo) [0..<n])"
    by (simp add: sorted_wrt_map)
  then have "sorted_wrt (\<lambda>b b'. ?from b' < ?from b)
               (filter P (map (\<lambda>k. now - int k * slice pinfo) [0..<n]))"
    by (rule sorted_wrt_filter)
  then show ?thesis by (simp add: sorted_wrt_map)
qed

text \<open>
  Weekdays. While the zone's offset to UTC stays the same, going back \<open>k\<close> days of
  86400 seconds moves the weekday back by \<open>k\<close>; while the offset the program computes
  stays the same, it leaves the offset into the day as it is.
\<close>

lemma weekday_ids_eq_iff:
  assumes "i < 7" and "j < 7"
  shows "weekday_ids ! i = weekday_ids ! j \<longleftrightarrow> i = j"
proof -
  have "distinct weekday_ids" by (simp add: weekday_ids_def)
  moreover have "length weekday_ids = 7" by (simp add: weekday_ids_def)
  ultimately show ?thesis using assms by (simp add: nth_eq_iff_index_eq)
qed

lemma days_back:
  fixes x :: int
  shows "(x - int k * 86400) div 86400 = x div 86400 - int k"
    and "(x - int k * 86400) mod 86400 = x mod 86400"
proof -
  have e: "x - int k * 86400 = x + (- int k) * 86400" by simp
  show "(x - int k * 86400) div 86400 = x div 86400 - int k"
    unfolding e by (subst div_mult_self1) simp_all
  show "(x - int k * 86400) mod 86400 = x mod 86400"
    unfolding e by (rule mod_mult_self1)
qed

lemma same_weekday_iff:
  assumes same: "tm_gmtoff tz (now - int k * 86400) = tm_gmtoff tz now" and k: "k < 14"
  shows "fst (group_by_wday tz (now - int k * 86400)) = fst (group_by_wday tz now)
           \<longleftrightarrow> k = 0 \<or> k = 7"
proof -
  define d where "d = (now + tm_gmtoff tz now) div 86400"
  have "now - int k * 86400 + tm_gmtoff tz now = now + tm_gmtoff tz now - int k * 86400"
    by simp
  then have "(now - int k * 86400 + tm_gmtoff tz now) div 86400 = d - int k"
    using days_back(1) [of "now + tm_gmtoff tz now" k] by (simp only: d_def)
  then have wk: "tm_wday tz (now - int k * 86400) = nat ((d - int k + 3) mod 7)"
    unfolding tm_wday_def same by simp
  have w0: "tm_wday tz now = nat ((d + 3) mod 7)"
    by (simp add: tm_wday_def d_def)
  have "nat ((d - int k + 3) mod 7) < 7" and "nat ((d + 3) mod 7) < 7" by simp_all
  then have "weekday_ids ! nat ((d - int k + 3) mod 7) = weekday_ids ! nat ((d + 3) mod 7)
      \<longleftrightarrow> nat ((d - int k + 3) mod 7) = nat ((d + 3) mod 7)"
    by (rule weekday_ids_eq_iff)
  also have "\<dots> \<longleftrightarrow> (d - int k + 3) mod 7 = (d + 3) mod 7"
    by (simp add: nat_eq_iff)
  also have "\<dots> \<longleftrightarrow> 7 dvd int k"
  proof -
    have "(d - int k + 3) mod 7 = (d + 3) mod 7 \<longleftrightarrow> 7 dvd (d - int k + 3) - (d + 3)"
      by (rule mod_eq_dvd_iff)
    also have "(d - int k + 3) - (d + 3) = - int k" by simp
    finally show ?thesis by simp
  qed
  also have "\<dots> \<longleftrightarrow> k = 0 \<or> k = 7"
    using k by presburger
  finally show ?thesis by (simp add: group_by_wday_def wk w0)
qed

lemma same_offset:
  assumes same: "timezone_at tz (now - int k * 86400) = timezone_at tz now"
  shows "snd (group_by_wday tz (now - int k * 86400)) = snd (group_by_wday tz now)"
proof -
  have "now - int k * 86400 - timezone_at tz now = now - timezone_at tz now - int k * 86400"
    by simp
  then have "(now - int k * 86400 - timezone_at tz now) mod 86400
      = (now - timezone_at tz now) mod 86400"
    using days_back(2) [of "now - timezone_at tz now" k] by (simp only:)
  then show ?thesis
    unfolding group_by_wday_def window_start_def same by simp
qed

lemma upt_14: "[0..<14] = [0, 1, 2, 3, 4, 5, 6, 7, 8, 9, 10, 11, 12, 13 :: nat]"
  by (simp add: upt_rec)

lemma weekday_two_windows:
  assumes real: "\<forall>k<14. tm_gmtoff tz (now - int k * 86400) = tm_gmtoff tz now"
    and same: "\<forall>k<14. timezone_at tz (now - int k * 86400) = timezone_at tz now"
  shows "time_slices now (14 * 86400) (PREDICTION_PERIODS tz wday) (fst (group_by_wday tz now)) =
           Inr [(now - window_start tz now 86400, now - window_start tz now 86400 + 86400),
                (now - window_start tz now 86400 - 7 * 86400,
                 now - window_start tz now 86400 - 7 * 86400 + 86400)]"
proof -
  let ?g = "\<lambda>k::nat. now - int k * 86400"
  let ?P = "\<lambda>b. fst (group_by_wday tz b) = fst (group_by_wday tz now)"
  have sl: "slice (PREDICTION_PERIODS tz wday) = 86400"
    and gb: "groupby (PREDICTION_PERIODS tz wday) = group_by_wday tz"
    by (simp_all add: PREDICTION_PERIODS_def)
  have n: "nat ((14 * 86400 + 86400 - 1) div (86400::int)) = 14" by simp
  have "filter (?P \<circ> ?g) [0..<14] = filter (\<lambda>k. k = 0 \<or> k = 7) [0..<14]"
  proof (rule filter_cong [OF refl])
    fix k assume "k \<in> set [0..<14]"
    then have k: "k < 14" by simp
    with real have "tm_gmtoff tz (now - int k * 86400) = tm_gmtoff tz now" by simp
    from same_weekday_iff [OF this k] show "(?P \<circ> ?g) k = (k = 0 \<or> k = 7)" by simp
  qed
  also have "\<dots> = [0, 7]" by (simp add: upt_14)
  finally have flt: "filter ?P (map ?g [0..<14]) = [now, now - 7 * 86400]"
    by (simp add: filter_map)
  from same have "timezone_at tz (now - int 7 * 86400) = timezone_at tz now"
    by (rule allE [of _ 7]) simp
  from same_offset [OF this]
  have earlier: "snd (group_by_wday tz (now - 604800)) = snd (group_by_wday tz now)"
    by simp
  have zero: "snd (group_by_wday tz now) = window_start tz now 86400"
    by (simp add: group_by_wday_def)
  have seven: "snd (group_by_wday tz (now - 604800)) = window_start tz now 86400"
    using earlier by (simp add: zero)
  have "0 < slice (PREDICTION_PERIODS tz wday)" by (simp add: sl)
  from time_slices_closed [OF this, of now "14 * 86400" "fst (group_by_wday tz now)"]
  show ?thesis
    unfolding sl gb n flt by (simp add: seven zero)
qed


text \<open>
  C2, as the code has it. For every period of the catalog, every \<open>now\<close> and every
  horizon, \<^verbatim>\<open>_time_slices\<close> called with the identity of \<open>now\<close> walks \<open>begin\<close> back
  from \<open>now\<close> in steps of the bucket width, visiting exactly the times above
  \<open>now - horizon_seconds\<close> (the next step would reach or pass it), keeps the bucket
  \<open>[from, until)\<close> of exactly those whose identity is that of \<open>now\<close>, and returns
  them in the order visited, most recent first. For the period \<^verbatim>\<open>wday\<close> and a horizon
  of 14 days, if at the 14 times visited the zone's offset to UTC (\<^verbatim>\<open>tm_gmtoff\<close>,
  which decides the weekday) is the same, and the offset the program computes from
  \<^verbatim>\<open>time.timezone\<close>, \<^verbatim>\<open>time.altzone\<close> and the daylight-saving flag (which decides
  where a day starts) is the same, the result is exactly two windows: the day of
  \<open>now\<close> and the day 7 \<open>\<sqdot>\<close> 86400 seconds before it.
\<close>

theorem time_slices_partition:
  "(let pinfo = PREDICTION_PERIODS tz p;
        n = nat ((horizon_seconds + slice pinfo - 1) div slice pinfo);
        begins = map (\<lambda>k. now - int k * slice pinfo) [0..<n];
        bucket = (\<lambda>b. (b - snd (groupby pinfo b), b - snd (groupby pinfo b) + slice pinfo));
        kept = map bucket (filter (\<lambda>b. fst (groupby pinfo b) = fst (groupby pinfo now)) begins)
    in time_slices now horizon_seconds pinfo (fst (groupby pinfo now)) = Inr kept
       \<and> (\<forall>b\<in>set begins. now - horizon_seconds < b)
       \<and> now - int n * slice pinfo \<le> now - horizon_seconds
       \<and> sorted_wrt (\<lambda>a b. fst b < fst a) kept)
   \<and> ((\<forall>k<14. tm_gmtoff tz (now - int k * 86400) = tm_gmtoff tz now)
        \<and> (\<forall>k<14. timezone_at tz (now - int k * 86400) = timezone_at tz now) \<longrightarrow>
        time_slices now (14 * 86400) (PREDICTION_PERIODS tz wday) (fst (group_by_wday tz now)) =
          Inr [(now - window_start tz now 86400, now - window_start tz now 86400 + 86400),
               (now - window_start tz now 86400 - 7 * 86400,
                now - window_start tz now 86400 - 7 * 86400 + 86400)])"
proof -
  let ?pinfo = "PREDICTION_PERIODS tz p"
  let ?n = "nat ((horizon_seconds + slice ?pinfo - 1) div slice ?pinfo)"
  let ?begins = "map (\<lambda>k. now - int k * slice ?pinfo) [0..<?n]"
  have w: "0 < slice ?pinfo" by (rule catalog_slice_pos)
  have off: "\<forall>b. 0 \<le> snd (groupby ?pinfo b) \<and> snd (groupby ?pinfo b) < slice ?pinfo"
    using catalog_offset_bounds by blast
  have walk: "\<forall>b\<in>set ?begins. now - horizon_seconds < b"
  proof
    fix b assume "b \<in> set ?begins"
    then obtain k where k: "k < ?n" and b: "b = now - int k * slice ?pinfo" by auto
    from walk_bounds [OF w k] b show "now - horizon_seconds < b" by simp
  qed
  have stop: "now - int ?n * slice ?pinfo \<le> now - horizon_seconds"
    using walk_end [OF w, of horizon_seconds] by simp
  from time_slices_closed [OF w, of now horizon_seconds "fst (groupby ?pinfo now)"]
       walk stop buckets_most_recent_first [OF w off]
       weekday_two_windows [of tz now]
  show ?thesis
    unfolding Let_def by blast
qed

text \<open>
  In June 2026 no change of daylight saving lies within 14 days before the example time.
\<close>

lemma berlin_june_same_offset:
  "(\<forall>k<14. tm_gmtoff europe_berlin_2026 (1781604000 - int k * 86400)
       = tm_gmtoff europe_berlin_2026 1781604000)
   \<and> (\<forall>k<14. timezone_at europe_berlin_2026 (1781604000 - int k * 86400)
       = timezone_at europe_berlin_2026 1781604000)"
  by (simp add: timezone_at_def is_dst_def europe_berlin_2026_def)

text \<open>
  Tuesday 16 June 2026: two windows, local midnight to local midnight, 7 days apart.
\<close>

theorem time_slices_partition_witness:
  "fst (group_by_wday europe_berlin_2026 1781604000) = ''tuesday''
   \<and> time_slices 1781604000 (14 * 86400) (PREDICTION_PERIODS europe_berlin_2026 wday) ''tuesday''
       = Inr [(1781560800, 1781647200), (1780956000, 1781042400)]"
proof -
  have id: "fst (group_by_wday europe_berlin_2026 1781604000) = ''tuesday''"
    by (simp add: group_by_wday_def tm_wday_def timezone_at_def is_dst_def europe_berlin_2026_def
          weekday_ids_def)
  have ws: "window_start europe_berlin_2026 1781604000 86400 = 43200"
    by (simp add: window_start_def timezone_at_def is_dst_def europe_berlin_2026_def)
  from time_slices_partition [of europe_berlin_2026 wday "14 * 86400" 1781604000]
       berlin_june_same_offset
  have "time_slices 1781604000 (14 * 86400) (PREDICTION_PERIODS europe_berlin_2026 wday)
          (fst (group_by_wday europe_berlin_2026 1781604000)) =
          Inr [(1781604000 - window_start europe_berlin_2026 1781604000 86400,
                1781604000 - window_start europe_berlin_2026 1781604000 86400 + 86400),
               (1781604000 - window_start europe_berlin_2026 1781604000 86400 - 7 * 86400,
                1781604000 - window_start europe_berlin_2026 1781604000 86400 - 7 * 86400 + 86400)]"
    by blast
  then show ?thesis
    unfolding id ws by (simp add: id)
qed

text \<open>
  C2 as stated fails across a change of daylight saving. On Tuesday 31 March 2026 at
  00:30 local time, two days after the clocks went forward, the walk back in steps of
  86400 seconds lands at 23:30 on the days before the change; it meets Tuesday 24 March
  after six steps and Tuesday 17 March after thirteen. The result has three windows, the
  first two 6 days and 23 hours apart.
\<close>

theorem time_slices_partition_counterexample:
  "fst (group_by_wday europe_berlin_2026 1774909800) = ''tuesday''
   \<and> time_slices 1774909800 (14 * 86400) (PREDICTION_PERIODS europe_berlin_2026 wday) ''tuesday''
       = Inr [(1774908000, 1774994400), (1774306800, 1774393200), (1773702000, 1773788400)]"
  by (simp add: time_slices_def py_range_def range_down.simps PREDICTION_PERIODS_def
      get_timegroup_relative_time_def group_by_wday_def window_start_def timezone_at_def is_dst_def
      europe_berlin_2026_def tm_wday_def weekday_ids_def)

text \<open>
  A change of the zone's standard offset does the same without any daylight saving. In
  Almaty on Tuesday 5 March 2024 at 23:30 local time, five days after the zone moved
  from six to five hours east of UTC, the program's own offset is five hours at all 14
  times, but the times before the change are 00:30 of the next day on the calendar. The
  Tuesday of the week before is met after eight steps, not seven, and the two windows
  are 8 days apart.
\<close>

lemma almaty_offset_change_example:
  "fst (group_by_wday asia_almaty_2024 1709663400) = ''tuesday''
   \<and> time_slices 1709663400 (14 * 86400) (PREDICTION_PERIODS asia_almaty_2024 wday) ''tuesday''
       = Inr [(1709578800, 1709665200), (1708887600, 1708974000)]"
  by (simp add: time_slices_def py_range_def range_down.simps PREDICTION_PERIODS_def
      get_timegroup_relative_time_def group_by_wday_def window_start_def timezone_at_def is_dst_def
      asia_almaty_2024_def tm_wday_def weekday_ids_def)

subsection \<open>Prediction store\<close>

lemma get_after_remove:
  "get_data st tg (remove_prediction st tg fs) = Inr None
   \<and> get_info st tg (remove_prediction st tg fs) = Inr None"
  by (simp add: get_data_def get_info_def remove_prediction_def Let_def)

lemma compute_prediction_files:
  "files (compute_prediction env info st now pinfo host svc fs) =
     (case result (compute_prediction env info st now pinfo host svc fs) of
        Inl err \<Rightarrow> remove_prediction st (name info) fs
      | Inr d \<Rightarrow> save_prediction st info d (remove_prediction st (name info) fs))"
  by (simp add: compute_prediction_def Let_def split: sum.splits list.splits prod.splits)

text \<open>
  C8: when the store keeps the info file and the data file of a time group apart (the
  two suffixes differ), \<^verbatim>\<open>get_data\<close> and \<^verbatim>\<open>get_info\<close> after
  \<^verbatim>\<open>save_prediction\<close> return the data and the metadata that were saved, whatever
  the files held before; and after \<^verbatim>\<open>remove_prediction\<close> both return \<open>None\<close>
  and raise nothing, for every file system, those without the files included.
\<close>

theorem save_then_get:
  assumes "info_file st (name info) \<noteq> data_file st (name info)"
  shows "get_data st (name info) (save_prediction st info d fs) = Inr (Some d)
         \<and> get_info st (name info) (save_prediction st info d fs) = Inr (Some info)
         \<and> get_data st tg (remove_prediction st tg fs) = Inr None
         \<and> get_info st tg (remove_prediction st tg fs) = Inr None"
  using assms
  by (simp add: get_data_def get_info_def save_prediction_def remove_prediction_def Let_def)

text \<open>
  The artifact of the example is read back as saved, and is gone after removal; removal
  from an empty file system gives absence too.
\<close>

theorem save_then_get_witness:
  "get_data example_store ''tuesday'' old_files = Inr (Some old_data)
   \<and> get_info example_store ''tuesday'' old_files = Inr (Some example_info)
   \<and> get_data example_store ''tuesday'' (remove_prediction example_store ''tuesday'' old_files)
       = Inr None
   \<and> get_data example_store ''tuesday'' (remove_prediction example_store ''tuesday'' Map.empty)
       = Inr None"
proof -
  have n: "name example_info = ''tuesday''"
    by (simp add: example_info_def)
  have h: "info_file example_store (name example_info) \<noteq> data_file example_store (name example_info)"
    by (simp add: example_store_def n)
  from save_then_get [OF h, of old_data Map.empty "''tuesday''"]
       save_then_get [OF h, of old_data old_files "''tuesday''"]
  show ?thesis
    unfolding n old_files_def by simp
qed

subsection \<open>Orchestrator\<close>

text \<open>
  C10: the artifact is removed before anything else is done and saved only at the end, so
  whenever \<^verbatim>\<open>compute_prediction\<close> raises, during a fetch or later, \<^verbatim>\<open>get_info\<close>
  and \<^verbatim>\<open>get_data\<close> for the time group return \<open>None\<close> afterwards: the artifact
  stored before the call is gone.
\<close>

theorem failed_computation_leaves_no_artifact:
  assumes "result (compute_prediction env info st now pinfo host svc fs) = Inl err"
  shows "get_info st (name info) (files (compute_prediction env info st now pinfo host svc fs))
           = Inr None
         \<and> get_data st (name info) (files (compute_prediction env info st now pinfo host svc fs))
           = Inr None"
  using assms by (simp add: compute_prediction_files get_after_remove)


text \<open>
  The example: on Tuesday 16 June 2026 the horizon of 14 days holds two Tuesdays. The
  broken source answers for the first and fails for the second.
\<close>

lemma example_slices:
  "time_slices 1781604000 (horizon (params example_info) * 86400)
     (PREDICTION_PERIODS europe_berlin_2026 wday) (name example_info)
   = Inr [(1781560800, 1781647200), (1780956000, 1781042400)]"
  by (simp add: example_info_def time_slices_def py_range_def range_down.simps PREDICTION_PERIODS_def
      get_timegroup_relative_time_def group_by_wday_def window_start_def timezone_at_def is_dst_def
      europe_berlin_2026_def tm_wday_def weekday_ids_def)

lemma example_failure:
  "result (compute_prediction \<lparr>debug_enabled = dbg, get_rrd_data = broken_source\<rparr> example_info
      example_store 1781604000 (PREDICTION_PERIODS europe_berlin_2026 wday) ''host1'' ''CPU load''
      old_files)
   = Inl (if dbg then MKLivestatusNotFoundError ''no such metric''
          else MKGeneralException ''Cannot get historic metrics via Livestatus: no such metric'')"
  by (simp add: compute_prediction_def example_slices Let_def
        get_rrd_data_with_mk_general_exception_def rrd_request_of_def broken_source_def)

text \<open>
  The stored artifact can be read before the call; the call fails at the second fetch;
  afterwards both reads give \<open>None\<close>.
\<close>

theorem failed_computation_leaves_no_artifact_witness:
  "get_info example_store ''tuesday'' old_files = Inr (Some example_info)
   \<and> get_data example_store ''tuesday'' old_files = Inr (Some old_data)
   \<and> result (compute_prediction \<lparr>debug_enabled = False, get_rrd_data = broken_source\<rparr>
        example_info example_store 1781604000 (PREDICTION_PERIODS europe_berlin_2026 wday)
        ''host1'' ''CPU load'' old_files)
      = Inl (MKGeneralException ''Cannot get historic metrics via Livestatus: no such metric'')
   \<and> get_info example_store ''tuesday''
        (files (compute_prediction \<lparr>debug_enabled = False, get_rrd_data = broken_source\<rparr>
           example_info example_store 1781604000 (PREDICTION_PERIODS europe_berlin_2026 wday)
           ''host1'' ''CPU load'' old_files))
      = Inr None
   \<and> get_data example_store ''tuesday''
        (files (compute_prediction \<lparr>debug_enabled = False, get_rrd_data = broken_source\<rparr>
           example_info example_store 1781604000 (PREDICTION_PERIODS europe_berlin_2026 wday)
           ''host1'' ''CPU load'' old_files))
      = Inr None"
proof -
  have n: "name example_info = ''tuesday''"
    by (simp add: example_info_def)
  have old: "get_info example_store ''tuesday'' old_files = Inr (Some example_info)
     \<and> get_data example_store ''tuesday'' old_files = Inr (Some old_data)"
    by (simp add: old_files_def get_info_def get_data_def save_prediction_def n example_store_def)
  have fails: "result (compute_prediction \<lparr>debug_enabled = False, get_rrd_data = broken_source\<rparr>
        example_info example_store 1781604000 (PREDICTION_PERIODS europe_berlin_2026 wday)
        ''host1'' ''CPU load'' old_files)
      = Inl (MKGeneralException ''Cannot get historic metrics via Livestatus: no such metric'')"
    using example_failure [of False] by simp
  from failed_computation_leaves_no_artifact [OF fails] old fails show ?thesis
    unfolding n by simp
qed


text \<open>
  The fetch loop: when it succeeds it has sent one request per window, in order, and
  each was answered; when the fetch for window \<open>k\<close> is the first to fail, the requests
  sent are those for the windows up to \<open>k\<close>, each once, and the error is that of the
  wrapper.
\<close>

lemma rrd_responses_loop_success:
  assumes "rrd_responses_loop env host svc info ft ws = (Inr rs, sent)"
  shows "sent = map (\<lambda>(a, b). rrd_request_of host svc (dsname info) (cf info) a b) ws
         \<and> length rs = length ws
         \<and> (\<forall>j<length ws.
               get_rrd_data env
                 ((\<lambda>(a, b). rrd_request_of host svc (dsname info) (cf info) a b) (ws ! j))
                 = Returned (fst (rs ! j))
               \<and> snd (rs ! j) = ft - fst (ws ! j))"
  using assms
proof (induction ws arbitrary: rs sent)
  case Nil
  then show ?case by simp
next
  case (Cons w ws)
  obtain a b where w: "w = (a, b)" by (cases w)
  from Cons.prems w obtain r where
    got: "get_rrd_data_with_mk_general_exception env host svc (dsname info) (cf info) a b = Inr r"
    by (auto simp: Let_def split: sum.splits)
  then have fetched: "get_rrd_data env (rrd_request_of host svc (dsname info) (cf info) a b) = Returned r"
    by (auto simp: get_rrd_data_with_mk_general_exception_def split: rrd_outcome.splits if_splits)
  from Cons.prems w got obtain rs' sent' where
    rest: "rrd_responses_loop env host svc info ft ws = (Inr rs', sent')"
    and rs: "rs = (r, ft - a) # rs'"
    and sent: "sent = rrd_request_of host svc (dsname info) (cf info) a b # sent'"
    by (auto simp: Let_def split: sum.splits prod.splits)
  from Cons.IH [OF rest] have IH:
    "sent' = map (\<lambda>(a, b). rrd_request_of host svc (dsname info) (cf info) a b) ws"
    "length rs' = length ws"
    "\<forall>j<length ws.
       get_rrd_data env ((\<lambda>(a, b). rrd_request_of host svc (dsname info) (cf info) a b) (ws ! j))
         = Returned (fst (rs' ! j))
       \<and> snd (rs' ! j) = ft - fst (ws ! j)"
    by auto
  show ?case
  proof (intro conjI allI impI)
    show "sent = map (\<lambda>(a, b). rrd_request_of host svc (dsname info) (cf info) a b) (w # ws)"
      using sent IH(1) w by simp
    show "length rs = length (w # ws)" using rs IH(2) by simp
  next
    fix j assume "j < length (w # ws)"
    then show "get_rrd_data env
        ((\<lambda>(a, b). rrd_request_of host svc (dsname info) (cf info) a b) ((w # ws) ! j))
        = Returned (fst (rs ! j))"
      using IH(3) fetched w rs by (cases j) auto
  next
    fix j assume "j < length (w # ws)"
    then show "snd (rs ! j) = ft - fst ((w # ws) ! j)"
      using IH(3) w rs by (cases j) auto
  qed
qed

lemma rrd_responses_loop_failure:
  assumes "k < length ws"
    and "\<forall>j<k. \<exists>r. get_rrd_data env
           ((\<lambda>(a, b). rrd_request_of host svc (dsname info) (cf info) a b) (ws ! j)) = Returned r"
    and "\<forall>r. get_rrd_data env
           ((\<lambda>(a, b). rrd_request_of host svc (dsname info) (cf info) a b) (ws ! k)) \<noteq> Returned r"
  shows "rrd_responses_loop env host svc info ft ws =
           (Inl (case get_rrd_data env
                        ((\<lambda>(a, b). rrd_request_of host svc (dsname info) (cf info) a b) (ws ! k)) of
                   RaisedNotFound e \<Rightarrow>
                     if debug_enabled env then MKLivestatusNotFoundError e
                     else MKGeneralException (''Cannot get historic metrics via Livestatus: '' @ e)
                 | _ \<Rightarrow> MKGeneralException ''Cannot retrieve historic data with Nagios Core''),
            map (\<lambda>(a, b). rrd_request_of host svc (dsname info) (cf info) a b) (take (Suc k) ws))"
  using assms
proof (induction ws arbitrary: k)
  case Nil
  then show ?case by simp
next
  case (Cons w ws)
  obtain a b where w: "w = (a, b)" by (cases w)
  show ?case
  proof (cases k)
    case 0
    with Cons.prems(3) w
    have "\<forall>r. get_rrd_data env (rrd_request_of host svc (dsname info) (cf info) a b) \<noteq> Returned r"
      by simp
    then show ?thesis
      using 0 w
      by (cases "get_rrd_data env (rrd_request_of host svc (dsname info) (cf info) a b)")
        (simp_all add: get_rrd_data_with_mk_general_exception_def Let_def)
  next
    case (Suc k')
    from Cons.prems(2) Suc w obtain r where
      r: "get_rrd_data env (rrd_request_of host svc (dsname info) (cf info) a b) = Returned r"
      by fastforce
    have k': "k' < length ws" using Cons.prems(1) Suc by simp
    have before: "\<forall>j<k'. \<exists>r. get_rrd_data env
           ((\<lambda>(a, b). rrd_request_of host svc (dsname info) (cf info) a b) (ws ! j)) = Returned r"
    proof (intro allI impI)
      fix j assume "j < k'"
      then have "Suc j < k" using Suc by simp
      with Cons.prems(2) show "\<exists>r. get_rrd_data env
           ((\<lambda>(a, b). rrd_request_of host svc (dsname info) (cf info) a b) (ws ! j)) = Returned r"
        by fastforce
    qed
    have at: "\<forall>r. get_rrd_data env
           ((\<lambda>(a, b). rrd_request_of host svc (dsname info) (cf info) a b) (ws ! k')) \<noteq> Returned r"
      using Cons.prems(3) Suc by simp
    from Cons.IH [OF k' before at] r w Suc show ?thesis
      by (simp add: get_rrd_data_with_mk_general_exception_def Let_def)
  qed
qed


lemma compute_prediction_success:
  assumes "result (compute_prediction env info st now pinfo host svc fs) = Inr d"
  shows "\<exists>ws rs. time_slices now (horizon (params info) * 86400) pinfo (name info) = Inr ws
           \<and> requests (compute_prediction env info st now pinfo host svc fs)
               = map (\<lambda>(a, b). rrd_request_of host svc (dsname info) (cf info) a b) ws
           \<and> length rs = length ws
           \<and> (\<forall>j<length ws.
                 get_rrd_data env
                   ((\<lambda>(a, b). rrd_request_of host svc (dsname info) (cf info) a b) (ws ! j))
                   = Returned (fst (rs ! j)))
           \<and> calculate_data_for_prediction
                (map (\<lambda>(r, off). (TimeSeries_init (rrd_values r) (rrd_window r), off)) rs) = Inr d"
proof -
  from assms obtain ws where ws: "time_slices now (horizon (params info) * 86400) pinfo (name info) = Inr ws"
    by (cases "time_slices now (horizon (params info) * 86400) pinfo (name info)")
      (auto simp: compute_prediction_def Let_def)
  from assms ws obtain ft u rest where cons: "ws = (ft, u) # rest"
    by (cases ws) (auto simp: compute_prediction_def Let_def)
  obtain res sent where loop: "rrd_responses_loop env host svc info ft ws = (res, sent)"
    by (cases "rrd_responses_loop env host svc info ft ws")
  from assms ws cons loop obtain rs where rs: "res = Inr rs"
    by (cases res) (auto simp: compute_prediction_def Let_def)
  from assms ws cons loop rs have
    calc: "calculate_data_for_prediction
             (map (\<lambda>(r, off). (TimeSeries_init (rrd_values r) (rrd_window r), off)) rs) = Inr d"
    and req: "requests (compute_prediction env info st now pinfo host svc fs) = sent"
    by (auto simp: compute_prediction_def Let_def split: sum.splits)
  from rrd_responses_loop_success [OF loop [unfolded rs]] req calc ws show ?thesis
    by blast
qed

lemma compute_prediction_fetch_failure:
  assumes ws: "time_slices now (horizon (params info) * 86400) pinfo (name info) = Inr ws"
    and k: "k < length ws"
    and before: "\<forall>j<k. \<exists>r. get_rrd_data env
           ((\<lambda>(a, b). rrd_request_of host svc (dsname info) (cf info) a b) (ws ! j)) = Returned r"
    and at: "\<forall>r. get_rrd_data env
           ((\<lambda>(a, b). rrd_request_of host svc (dsname info) (cf info) a b) (ws ! k)) \<noteq> Returned r"
  shows "requests (compute_prediction env info st now pinfo host svc fs)
           = map (\<lambda>(a, b). rrd_request_of host svc (dsname info) (cf info) a b) (take (Suc k) ws)
         \<and> result (compute_prediction env info st now pinfo host svc fs)
           = Inl (case get_rrd_data env
                        ((\<lambda>(a, b). rrd_request_of host svc (dsname info) (cf info) a b) (ws ! k)) of
                   RaisedNotFound e \<Rightarrow>
                     if debug_enabled env then MKLivestatusNotFoundError e
                     else MKGeneralException (''Cannot get historic metrics via Livestatus: '' @ e)
                 | _ \<Rightarrow> MKGeneralException ''Cannot retrieve historic data with Nagios Core'')"
proof -
  from k obtain ft u rest where cons: "ws = (ft, u) # rest"
    by (cases ws) auto
  from rrd_responses_loop_failure [OF k before at, of ft] ws cons show ?thesis
    by (simp add: compute_prediction_def Let_def)
qed


text \<open>
  C7, as the code has it. (1) Whatever happens, the files after the call are the files
  before it with the artifact of the time group removed, plus, only when the call
  returns, the returned data saved. (2) When the call returns, every window was
  requested once, every request was answered, and the data returned and saved is the
  summary computed from all the answers. (3) When the fetch for window \<open>k\<close> is the first
  that fails (the source raises not-found or returns nothing), no request is repeated
  and none follows, nothing is saved, and the call raises \<^verbatim>\<open>MKGeneralException\<close>
  (the \<^verbatim>\<open>DataUnavailableError\<close> of the specification), except that with debugging
  enabled a not-found error of the source is raised as it is.
\<close>

theorem compute_prediction_effects:
  "(let out = compute_prediction env info st now pinfo host svc fs;
        removed = remove_prediction st (name info) fs;
        request = (\<lambda>(a, b). rrd_request_of host svc (dsname info) (cf info) a b)
    in files out = (case result out of
                      Inl err \<Rightarrow> removed
                    | Inr d \<Rightarrow> save_prediction st info d removed)
       \<and> (\<forall>d. result out = Inr d \<longrightarrow>
             (\<exists>ws rs. time_slices now (horizon (params info) * 86400) pinfo (name info) = Inr ws
                \<and> requests out = map request ws
                \<and> length rs = length ws
                \<and> (\<forall>j<length ws. get_rrd_data env (request (ws ! j)) = Returned (fst (rs ! j)))
                \<and> calculate_data_for_prediction
                     (map (\<lambda>(r, off). (TimeSeries_init (rrd_values r) (rrd_window r), off)) rs)
                    = Inr d))
       \<and> (\<forall>ws k. time_slices now (horizon (params info) * 86400) pinfo (name info) = Inr ws
              \<and> k < length ws
              \<and> (\<forall>j<k. \<exists>r. get_rrd_data env (request (ws ! j)) = Returned r)
              \<and> (\<forall>r. get_rrd_data env (request (ws ! k)) \<noteq> Returned r)
            \<longrightarrow> requests out = map request (take (Suc k) ws)
                \<and> files out = removed
                \<and> (if debug_enabled env \<and> (\<exists>e. get_rrd_data env (request (ws ! k)) = RaisedNotFound e)
                    then \<exists>e. get_rrd_data env (request (ws ! k)) = RaisedNotFound e
                           \<and> result out = Inl (MKLivestatusNotFoundError e)
                    else \<exists>msg. result out = Inl (MKGeneralException msg))))"
proof -
  let ?out = "compute_prediction env info st now pinfo host svc fs"
  let ?removed = "remove_prediction st (name info) fs"
  let ?request = "\<lambda>(a, b). rrd_request_of host svc (dsname info) (cf info) a b"
  have A: "files ?out = (case result ?out of
                      Inl err \<Rightarrow> ?removed
                    | Inr d \<Rightarrow> save_prediction st info d ?removed)"
    by (rule compute_prediction_files)
  have B: "\<forall>d. result ?out = Inr d \<longrightarrow>
             (\<exists>ws rs. time_slices now (horizon (params info) * 86400) pinfo (name info) = Inr ws
                \<and> requests ?out = map ?request ws
                \<and> length rs = length ws
                \<and> (\<forall>j<length ws. get_rrd_data env (?request (ws ! j)) = Returned (fst (rs ! j)))
                \<and> calculate_data_for_prediction
                     (map (\<lambda>(r, off). (TimeSeries_init (rrd_values r) (rrd_window r), off)) rs)
                    = Inr d)"
    using compute_prediction_success [of env info st now pinfo host svc fs] by blast
  have C: "requests ?out = map ?request (take (Suc k) ws)
                \<and> files ?out = ?removed
                \<and> (if debug_enabled env \<and> (\<exists>e. get_rrd_data env (?request (ws ! k)) = RaisedNotFound e)
                    then \<exists>e. get_rrd_data env (?request (ws ! k)) = RaisedNotFound e
                           \<and> result ?out = Inl (MKLivestatusNotFoundError e)
                    else \<exists>msg. result ?out = Inl (MKGeneralException msg))"
    if ws: "time_slices now (horizon (params info) * 86400) pinfo (name info) = Inr ws"
      and k: "k < length ws"
      and before: "\<forall>j<k. \<exists>r. get_rrd_data env (?request (ws ! j)) = Returned r"
      and at: "\<forall>r. get_rrd_data env (?request (ws ! k)) \<noteq> Returned r"
    for ws k
  proof -
    from compute_prediction_fetch_failure [OF ws k before at, where st = st and fs = fs]
    have req: "requests ?out = map ?request (take (Suc k) ws)"
      and res: "result ?out = Inl (case get_rrd_data env (?request (ws ! k)) of
                   RaisedNotFound e \<Rightarrow>
                     if debug_enabled env then MKLivestatusNotFoundError e
                     else MKGeneralException (''Cannot get historic metrics via Livestatus: '' @ e)
                 | _ \<Rightarrow> MKGeneralException ''Cannot retrieve historic data with Nagios Core'')"
      by simp_all
    from res A have fl: "files ?out = ?removed" by simp
    have shape: "if debug_enabled env \<and> (\<exists>e. get_rrd_data env (?request (ws ! k)) = RaisedNotFound e)
                    then \<exists>e. get_rrd_data env (?request (ws ! k)) = RaisedNotFound e
                           \<and> result ?out = Inl (MKLivestatusNotFoundError e)
                    else \<exists>msg. result ?out = Inl (MKGeneralException msg)"
      using res at by (cases "get_rrd_data env (?request (ws ! k))") auto
    from req fl shape show ?thesis by blast
  qed
  from A B C show ?thesis
    unfolding Let_def by blast
qed


lemma example_requests:
  "requests (compute_prediction \<lparr>debug_enabled = dbg, get_rrd_data = broken_source\<rparr> example_info
      example_store 1781604000 (PREDICTION_PERIODS europe_berlin_2026 wday) ''host1'' ''CPU load''
      old_files)
   = [(''host1'', ''CPU load'', ''load1.max'', 1781560800, 1781647200),
      (''host1'', ''CPU load'', ''load1.max'', 1780956000, 1781042400)]"
  by (simp add: compute_prediction_def example_slices Let_def
        get_rrd_data_with_mk_general_exception_def rrd_request_of_def broken_source_def)
     (simp add: example_info_def lower_def lower_char_def)

lemma example_success:
  "result (compute_prediction \<lparr>debug_enabled = dbg, get_rrd_data = healthy_source\<rparr> example_info
      example_store 1781604000 (PREDICTION_PERIODS europe_berlin_2026 wday) ''host1'' ''CPU load''
      old_files)
   = Inr \<lparr>points = [Some \<lparr>average = 1, min_ = 1, max_ = 1, stdev = Some 0\<rparr>,
                    Some \<lparr>average = 3, min_ = 3, max_ = 3, stdev = Some 0\<rparr>],
          data_twindow = [1781560800, 1781647200], step = 43200\<rparr>"
  by (simp add: compute_prediction_def example_slices Let_def
        get_rrd_data_with_mk_general_exception_def rrd_request_of_def healthy_source_def
        calculate_data_for_prediction_def upsample_def TimeSeries_init_def twindow_def
        bfill_upsample_def data_stats_def zip_star_def data_stat_of_column_def drop_none_def
        py_min_def py_max_def std_dev_def upt_rec)

text \<open>
  With the broken source and debugging off, the call raises \<^verbatim>\<open>MKGeneralException\<close>
  after two requests and leaves the store without the artifact; with the healthy source
  it saves the summary of both windows.
\<close>

theorem compute_prediction_effects_witness:
  "result (compute_prediction \<lparr>debug_enabled = False, get_rrd_data = broken_source\<rparr>
        example_info example_store 1781604000 (PREDICTION_PERIODS europe_berlin_2026 wday)
        ''host1'' ''CPU load'' old_files)
      = Inl (MKGeneralException ''Cannot get historic metrics via Livestatus: no such metric'')
   \<and> requests (compute_prediction \<lparr>debug_enabled = False, get_rrd_data = broken_source\<rparr>
        example_info example_store 1781604000 (PREDICTION_PERIODS europe_berlin_2026 wday)
        ''host1'' ''CPU load'' old_files)
      = [(''host1'', ''CPU load'', ''load1.max'', 1781560800, 1781647200),
         (''host1'', ''CPU load'', ''load1.max'', 1780956000, 1781042400)]
   \<and> files (compute_prediction \<lparr>debug_enabled = False, get_rrd_data = broken_source\<rparr>
        example_info example_store 1781604000 (PREDICTION_PERIODS europe_berlin_2026 wday)
        ''host1'' ''CPU load'' old_files)
      = remove_prediction example_store ''tuesday'' old_files
   \<and> files (compute_prediction \<lparr>debug_enabled = False, get_rrd_data = healthy_source\<rparr>
        example_info example_store 1781604000 (PREDICTION_PERIODS europe_berlin_2026 wday)
        ''host1'' ''CPU load'' old_files)
      = save_prediction example_store example_info
          \<lparr>points = [Some \<lparr>average = 1, min_ = 1, max_ = 1, stdev = Some 0\<rparr>,
                      Some \<lparr>average = 3, min_ = 3, max_ = 3, stdev = Some 0\<rparr>],
            data_twindow = [1781560800, 1781647200], step = 43200\<rparr>
          (remove_prediction example_store ''tuesday'' old_files)"
proof -
  have n: "name example_info = ''tuesday''"
    by (simp add: example_info_def)
  from compute_prediction_effects
         [of "\<lparr>debug_enabled = False, get_rrd_data = broken_source\<rparr>" example_info example_store
             1781604000 "PREDICTION_PERIODS europe_berlin_2026 wday" "''host1''" "''CPU load''"
             old_files]
       compute_prediction_effects
         [of "\<lparr>debug_enabled = False, get_rrd_data = healthy_source\<rparr>" example_info example_store
             1781604000 "PREDICTION_PERIODS europe_berlin_2026 wday" "''host1''" "''CPU load''"
             old_files]
  show ?thesis
    unfolding Let_def example_failure [of False] example_success [of False]
      example_requests [of False] n
    by simp
qed

text \<open>
  C7 as stated fails: with debugging enabled the not-found error of the source reaches
  the caller as \<^verbatim>\<open>MKLivestatusNotFoundError\<close>, not wrapped.
\<close>

theorem compute_prediction_effects_counterexample:
  "debug_enabled \<lparr>debug_enabled = True, get_rrd_data = broken_source\<rparr>
   \<and> broken_source (''host1'', ''CPU load'', ''load1.max'', 1780956000, 1781042400)
       = RaisedNotFound ''no such metric''
   \<and> result (compute_prediction \<lparr>debug_enabled = True, get_rrd_data = broken_source\<rparr>
        example_info example_store 1781604000 (PREDICTION_PERIODS europe_berlin_2026 wday)
        ''host1'' ''CPU load'' old_files)
      = Inl (MKLivestatusNotFoundError ''no such metric'')"
  using example_failure [of True] by (simp add: broken_source_def)

end
